theory Spec2Isabelle
  imports Main "HOL-Library.Word"
begin

unbundle bit_operations_syntax

section \<open>Library functions the aggregation engine calls\<close>

subsection \<open>strings.Contains\<close>

text \<open>
  Go strings are byte sequences and so are HOL strings. \<open>HasPrefix s p\<close> is
  \<^verbatim>\<open>strings.HasPrefix(s, p)\<close> and \<open>Contains s substr\<close> is
  \<^verbatim>\<open>strings.Contains(s, substr)\<close>: some suffix of \<open>s\<close> starts with \<open>substr\<close>.
\<close>

fun HasPrefix :: "string \<Rightarrow> string \<Rightarrow> bool" where
  "HasPrefix s [] = True"
| "HasPrefix [] (p # ps) = False"
| "HasPrefix (c # s) (p # ps) = (c = p \<and> HasPrefix s ps)"

fun Contains :: "string \<Rightarrow> string \<Rightarrow> bool" where
  "Contains [] substr = (substr = [])"
| "Contains (c # s) substr = (HasPrefix (c # s) substr \<or> Contains s substr)"

subsection \<open>text/template, for the actions the query templates use\<close>

text \<open>
  A parsed template is a list of nodes: literal text, and field actions
  \<^verbatim>\<open>{{.Name}}\<close>. \<open>Parse\<close> scans for the delimiters \<^verbatim>\<open>{{\<close> and \<^verbatim>\<open>}}\<close>; an
  action that is not closed, or that is not a dot followed by a field name, is a parse
  error (\<open>None\<close>). \<open>Execute\<close> writes the text nodes as they are and each field's value
  unescaped; a field the data does not have is an execution error (\<open>None\<close>). The data
  is the anonymous struct of the call, as a list of (field name, value) pairs.
\<close>

datatype node = TextNode string | FieldNode string

fun lexText :: "string \<Rightarrow> string \<Rightarrow> node list option"
  and lexAction :: "string \<Rightarrow> string \<Rightarrow> node list option" where
  "lexText [] acc = Some [TextNode (rev acc)]"
| "lexText [c] acc = Some [TextNode (rev (c # acc))]"
| "lexText (c # d # s) acc =
     (if c = CHR ''{'' \<and> d = CHR ''{''
      then map_option (Cons (TextNode (rev acc))) (lexAction s [])
      else lexText (d # s) (c # acc))"
| "lexAction [] acc = None"
| "lexAction [c] acc = None"
| "lexAction (c # d # s) acc =
     (if c = CHR ''}'' \<and> d = CHR ''}''
      then (case rev acc of
              [] \<Rightarrow> None
            | x # name \<Rightarrow>
                if x = CHR ''.'' \<and> name \<noteq> []
                then map_option (Cons (FieldNode name)) (lexText s [])
                else None)
      else lexAction (d # s) (c # acc))"

definition Parse :: "string \<Rightarrow> node list option" where
  "Parse text = lexText text []"

fun Execute :: "node list \<Rightarrow> (string \<times> string) list \<Rightarrow> string option" where
  "Execute [] data = Some []"
| "Execute (TextNode t # ns) data = map_option ((@) t) (Execute ns data)"
| "Execute (FieldNode f # ns) data =
     (case map_of data f of
        None \<Rightarrow> None
      | Some v \<Rightarrow> map_option ((@) v) (Execute ns data))"

subsection \<open>hash/fnv: the 32-bit FNV-1a hasher\<close>

text \<open>
  The hasher's state is one 32-bit word. \<open>New32a\<close> starts it at the offset basis,
  \<open>Write\<close> folds each byte in (xor, then multiply by the FNV prime, modulo \<open>2^32\<close>) and
  never returns an error, \<open>Sum32\<close> reads the state and \<open>Reset\<close> puts the offset basis back.
\<close>

type_synonym hasher = "32 word"

definition offset32 :: "32 word" where
  "offset32 = 2166136261"

definition prime32 :: "32 word" where
  "prime32 = 16777619"

definition New32a :: hasher where
  "New32a = offset32"

definition Write :: "hasher \<Rightarrow> string \<Rightarrow> hasher" where
  "Write h bs = fold (\<lambda>c hash. (hash XOR of_char c) * prime32) bs h"

definition Sum32 :: "hasher \<Rightarrow> 32 word" where
  "Sum32 h = h"

definition Reset :: "hasher \<Rightarrow> hasher" where
  "Reset h = offset32"

section \<open>Data model\<close>

text \<open>
  A \<open>float64\<close> is carried as its 64 bits: the engine only copies sample values into
  records and leaves unset fields at Go's zero value, the all-zero pattern.
\<close>

type_synonym float64 = "64 word"

text \<open>One element of a \<^verbatim>\<open>model.Vector\<close>: a label set, a value and a timestamp.\<close>

record Sample =
  Metric :: "string \<rightharpoonup> string"
  Value :: float64
  Timestamp :: int

text \<open>
  \<^verbatim>\<open>model.Value\<close> is an interface; the type assertion in \<open>top\<close> only asks whether the
  value is a \<^verbatim>\<open>model.Vector\<close>.
\<close>

datatype model_Value =
    Vector "Sample list"
  | Scalar float64
  | Matrix
  | StringValue string
  | NoValue

text \<open>What one \<^verbatim>\<open>Query\<close> call returns: the value, the warnings, the error (if any).\<close>

type_synonym response = "model_Value \<times> string list \<times> string option"

datatype go_context = Background | Caller nat

text \<open>
  The client is a deterministic function of the state of the backend behind it
  (type \<open>'b\<close>), the context, the query string and the evaluation time.
\<close>

record 'b Config =
  Context :: "go_context option"
  QueryType :: string
  Range :: string
  PrometheusClient :: "'b \<Rightarrow> go_context option \<Rightarrow> string \<Rightarrow> nat \<Rightarrow> response \<times> 'b"

text \<open>
  Modelled from the spec: \<^verbatim>\<open>PodMetric\<close> is \<^verbatim>\<open>dbhandler.Row\<close>, whose declaration
  (package \<^verbatim>\<open>pkg/dbhandler\<close>) is not among the sources. Its fields are the ones that
  \<open>top\<close> assigns and \<^verbatim>\<open>MarshalCSV\<close> prints, which are the attributes the spec's data
  model gives an aggregate record: the descriptive strings and five scalar fields.
\<close>

record PodMetric =
  Metric :: string
  Range :: string
  Pod :: string
  Namespace :: string
  LabelApp :: string
  QueryTime :: string
  Q95Value :: float64
  MaxValue :: float64
  MinValue :: float64
  AvgValue :: float64
  InstValue :: float64

text \<open>\<^verbatim>\<open>new(PodMetric)\<close>: every field at its zero value.\<close>

definition newPodMetric :: PodMetric where
  "newPodMetric =
     \<lparr>Metric = [], Range = [], Pod = [], Namespace = [], LabelApp = [], QueryTime = [],
      Q95Value = 0, MaxValue = 0, MinValue = 0, AvgValue = 0, InstValue = 0\<rparr>"

text \<open>
  The table of records, keyed by fingerprint. \<open>top\<close> returns the records of the table
  as a slice, in the unspecified order in which Go ranges over a map; the model returns
  the table itself, so the records are its range and their number is the size of its
  domain.
\<close>

type_synonym table = "32 word \<rightharpoonup> PodMetric"

datatype error =
    SelectFailed
  | ParseQueryTypeFailed error
  | TemplatePanic
  | ComposeBaseFailed
  | ComposeLabelFailed
  | QueryFailed string string
  | ExpectedVector

text \<open>
  The world a run acts on: the clock (\<open>clock w n\<close> is what the \<open>n\<close>-th reading of
  \<^verbatim>\<open>time.Now()\<close> returns, \<open>reads\<close> counts the readings taken), the state of the
  backend, and the log of the \<^verbatim>\<open>Query\<close> calls made so far, each with its query string,
  its evaluation time and what it returned.
\<close>

record 'b world =
  clock :: "nat \<Rightarrow> nat"
  reads :: nat
  backend :: 'b
  calls :: "(string \<times> nat \<times> response) list"

definition Now :: "'b world \<Rightarrow> nat \<times> 'b world" where
  "Now w = (clock w (reads w), w\<lparr>reads := Suc (reads w)\<rparr>)"

definition Query :: "'b Config \<Rightarrow> 'b world \<Rightarrow> string \<Rightarrow> nat \<Rightarrow> response \<times> 'b world" where
  "Query cfg w query ts =
     (case PrometheusClient cfg (backend w) (Context cfg) query ts of
        (resp, b) \<Rightarrow> (resp, w\<lparr>backend := b, calls := calls w @ [(query, ts, resp)]\<rparr>))"

section \<open>The program\<close>

subsection \<open>Metrics and query templates\<close>

definition cpuMetric :: string where
  "cpuMetric = ''container_cpu_usage_seconds_total''"

definition memoryMetric :: string where
  "memoryMetric = ''container_memory_usage_bytes''"

definition targetMetrics :: "string list" where
  "targetMetrics = [cpuMetric, memoryMetric]"

definition quantileOverTimeTemplate :: string where
  "quantileOverTimeTemplate = ''quantile_over_time(.95, {{.Metric}}[{{.Range}}])''"

definition avgOverTimeTemplate :: string where
  "avgOverTimeTemplate = ''avg_over_time({{.Metric}}[{{.Range}}])''"

definition maxOverTimeTemplate :: string where
  "maxOverTimeTemplate = ''max_over_time({{.Metric}}[{{.Range}}])''"

definition minOverTimeTemplate :: string where
  "minOverTimeTemplate = ''min_over_time({{.Metric}}[{{.Range}}])''"

definition instantTemplate :: string where
  "instantTemplate = ''{{.Metric}}''"

definition appLabelQuery :: string where
  "appLabelQuery =
     ''sum by (pod, label_app) (kube_pod_labels{pod!=\"\"}) * on (pod) group_right(label_app) sum by (pod, namespace, node) ({{.Query}})''"

text \<open>
  The same constant as \<^verbatim>\<open>pkg/top/queries.go\<close> declares it: the selector has a second
  matcher, and the raw string ends with a line feed.
\<close>

definition appLabelQuery_queries_go :: string where
  "appLabelQuery_queries_go =
     ''sum by (pod, label_app) (kube_pod_labels{pod!=\"\", label_app!=\"\"}) * on (pod) group_right(label_app) sum by (pod, namespace, node) ({{.Query}})'' @ [CHR 0x0A]"

definition selectQueryTemplates :: "string \<Rightarrow> error + string list" where
  "selectQueryTemplates q =
     (let t = [] in
      let t = (if q = ''q'' then t @ [quantileOverTimeTemplate]
               else if q = ''a'' then t @ [avgOverTimeTemplate]
               else if q = ''i'' then t @ [instantTemplate]
               else [quantileOverTimeTemplate, avgOverTimeTemplate,
                     maxOverTimeTemplate, minOverTimeTemplate])
      in Inr t)"

subsection \<open>Composing one query\<close>

text \<open>
  The first half of the loop body of \<open>top\<close>: parse the template \<open>qt\<close> (a parse error
  panics), execute it on the metric and the range, and execute the label template on
  the result.
\<close>

definition composeQuery :: "node list \<Rightarrow> string \<Rightarrow> string \<Rightarrow> string \<Rightarrow> error + string" where
  "composeQuery appLabelsTmp rng tm qt =
     (case Parse qt of
        None \<Rightarrow> Inl TemplatePanic
      | Some tmp \<Rightarrow>
          (case Execute tmp [(''Metric'', tm), (''Range'', rng)] of
             None \<Rightarrow> Inl ComposeBaseFailed
           | Some queryBuf \<Rightarrow>
               (case Execute appLabelsTmp [(''Query'', queryBuf)] of
                  None \<Rightarrow> Inl ComposeLabelFailed
                | Some labelBuf \<Rightarrow> Inr labelBuf)))"

subsection \<open>Folding one sample into the table\<close>

text \<open>A label that the sample does not carry reads as the empty string.\<close>

definition label :: "Sample \<Rightarrow> string \<Rightarrow> string" where
  "label sample name = (case Sample.Metric sample name of None \<Rightarrow> [] | Some v \<Rightarrow> v)"

text \<open>
  The \<^verbatim>\<open>switch\<close> that stores the sample's value: the first case whose substring the
  template contains; the last case takes every other non-empty template.
\<close>

definition storeValue :: "string \<Rightarrow> float64 \<Rightarrow> PodMetric \<Rightarrow> PodMetric" where
  "storeValue qt v pm =
     (if Contains qt ''quantile_over_time'' then pm\<lparr>Q95Value := v\<rparr>
      else if Contains qt ''avg_over_time'' then pm\<lparr>AvgValue := v\<rparr>
      else if Contains qt ''max_over_time'' then pm\<lparr>MaxValue := v\<rparr>
      else if Contains qt ''min_over_time'' then pm\<lparr>MinValue := v\<rparr>
      else if length qt > 0 then pm\<lparr>MinValue := v\<rparr>
      else pm)"

text \<open>
  The body of the loop over the samples of a vector. The hasher is shared by all
  iterations: each one writes the identity string, reads the sum and resets the hasher.
  \<open>layout t\<close> stands for \<^verbatim>\<open>t.Format(dbhandler.TimestampFormat)\<close>; the layout constant
  is declared outside the sources, so the rendering is a parameter.
\<close>

definition foldSample ::
  "(nat \<Rightarrow> string) \<Rightarrow> string \<Rightarrow> nat \<Rightarrow> string \<Rightarrow> string \<Rightarrow> Sample \<Rightarrow> hasher \<times> table \<Rightarrow> hasher \<times> table" where
  "foldSample layout rng now tm qt sample st =
     (case st of (hash, podMetricHashTable) \<Rightarrow>
        let ns = label sample ''namespace'';
            pod = label sample ''pod'';
            hash = Write hash (ns @ ''-'' @ pod @ ''-'' @ tm);
            id = Sum32 hash;
            hash = Reset hash;
            pm = (case podMetricHashTable id of None \<Rightarrow> newPodMetric | Some p \<Rightarrow> p);
            labelApp = label sample ''label_app'';
            pm = pm\<lparr>Namespace := ns\<rparr>;
            pm = pm\<lparr>Pod := pod\<rparr>;
            pm = pm\<lparr>Metric := tm\<rparr>;
            pm = pm\<lparr>LabelApp := labelApp\<rparr>;
            pm = pm\<lparr>Range := rng\<rparr>;
            pm = pm\<lparr>QueryTime := layout now\<rparr>;
            pm = storeValue qt (Value sample) pm
        in (hash, podMetricHashTable(id \<mapsto> pm)))"

definition foldVector ::
  "(nat \<Rightarrow> string) \<Rightarrow> string \<Rightarrow> nat \<Rightarrow> string \<Rightarrow> string \<Rightarrow> Sample list \<Rightarrow> hasher \<times> table \<Rightarrow> hasher \<times> table" where
  "foldVector layout rng now tm qt vector st = fold (foldSample layout rng now tm qt) vector st"

subsection \<open>The run\<close>

text \<open>
  One iteration of the inner loop: compose the query, execute it at the time \<open>now\<close>,
  fail on an error or on a value that is not a vector, and fold the vector in.
\<close>

definition queryStep ::
  "(nat \<Rightarrow> string) \<Rightarrow> 'b Config \<Rightarrow> node list \<Rightarrow> nat \<Rightarrow> string \<Rightarrow> string \<Rightarrow>
     'b world \<times> hasher \<times> table \<Rightarrow> 'b world \<times> (error + hasher \<times> table)" where
  "queryStep layout cfg appLabelsTmp now tm qt st =
     (case st of (w, loc) \<Rightarrow>
        (case composeQuery appLabelsTmp (Config.Range cfg) tm qt of
           Inl e \<Rightarrow> (w, Inl e)
         | Inr labelBuf \<Rightarrow>
             (case Query cfg w labelBuf now of
                ((queryValue, warnings, err), w') \<Rightarrow>
                  (case err of
                     Some e \<Rightarrow> (w', Inl (QueryFailed labelBuf e))
                   | None \<Rightarrow>
                       (case queryValue of
                          Vector vector \<Rightarrow>
                            (w', Inr (foldVector layout (Config.Range cfg) now tm qt vector loc))
                        | _ \<Rightarrow> (w', Inl ExpectedVector))))))"

text \<open>The loop over the query templates, for one metric; an error ends the run.\<close>

fun templateLoop ::
  "(nat \<Rightarrow> string) \<Rightarrow> 'b Config \<Rightarrow> node list \<Rightarrow> nat \<Rightarrow> string \<Rightarrow> string list \<Rightarrow>
     'b world \<times> hasher \<times> table \<Rightarrow> 'b world \<times> (error + hasher \<times> table)" where
  "templateLoop layout cfg appLabelsTmp now tm [] (w, loc) = (w, Inr loc)"
| "templateLoop layout cfg appLabelsTmp now tm (qt # qts) (w, loc) =
     (case queryStep layout cfg appLabelsTmp now tm qt (w, loc) of
        (w', Inl e) \<Rightarrow> (w', Inl e)
      | (w', Inr loc') \<Rightarrow> templateLoop layout cfg appLabelsTmp now tm qts (w', loc'))"

text \<open>The loop over the target metrics.\<close>

fun metricLoop ::
  "(nat \<Rightarrow> string) \<Rightarrow> 'b Config \<Rightarrow> node list \<Rightarrow> nat \<Rightarrow> string list \<Rightarrow> string list \<Rightarrow>
     'b world \<times> hasher \<times> table \<Rightarrow> 'b world \<times> (error + hasher \<times> table)" where
  "metricLoop layout cfg appLabelsTmp now [] queryTemplates (w, loc) = (w, Inr loc)"
| "metricLoop layout cfg appLabelsTmp now (tm # tms) queryTemplates (w, loc) =
     (case templateLoop layout cfg appLabelsTmp now tm queryTemplates (w, loc) of
        (w', Inl e) \<Rightarrow> (w', Inl e)
      | (w', Inr loc') \<Rightarrow> metricLoop layout cfg appLabelsTmp now tms queryTemplates (w', loc'))"

definition top :: "(nat \<Rightarrow> string) \<Rightarrow> 'b Config \<Rightarrow> 'b world \<Rightarrow> 'b world \<times> (error + table)" where
  "top layout cfg w0 =
     (case Now w0 of (now, w) \<Rightarrow>
        (case selectQueryTemplates (QueryType cfg) of
           Inl e \<Rightarrow> (w, Inl (ParseQueryTypeFailed e))
         | Inr queryTemplates \<Rightarrow>
             (case Parse appLabelQuery of
                None \<Rightarrow> (w, Inl TemplatePanic)
              | Some appLabelsTmp \<Rightarrow>
                  (case metricLoop layout cfg appLabelsTmp now targetMetrics queryTemplates
                          (w, New32a, Map.empty) of
                     (w', Inl e) \<Rightarrow> (w', Inl e)
                   | (w', Inr (hash, podMetricHashTable)) \<Rightarrow> (w', Inr podMetricHashTable)))))"

definition defaultRange :: string where
  "defaultRange = ''10m''"

definition Top :: "(nat \<Rightarrow> string) \<Rightarrow> 'b Config \<Rightarrow> 'b world \<Rightarrow> 'b world \<times> (error + table)" where
  "Top layout cfg w =
     (let cfg = (if Context cfg = None then cfg\<lparr>Context := Some Background\<rparr> else cfg);
          cfg = (if length (Config.Range cfg) = 0 then cfg\<lparr>Config.Range := defaultRange\<rparr> else cfg)
      in top layout cfg w)"

section \<open>Notions used to state the properties\<close>

subsection \<open>Template kinds, as the specification names them\<close>

text \<open>
  The specification speaks of five template kinds, each with its template and with the
  field of the record that it populates. The program has no such type: it carries the
  template strings. \<open>templateOf\<close> gives the program's template constant of a kind,
  \<open>fieldOf\<close> the field that the specification assigns to the kind, and \<open>rendered\<close>
  the text that the kind's template is to produce for a metric and a range.
\<close>

datatype TemplateKind = Quantile95 | Average | Maximum | Minimum | Instantaneous

fun templateOf :: "TemplateKind \<Rightarrow> string" where
  "templateOf Quantile95 = quantileOverTimeTemplate"
| "templateOf Average = avgOverTimeTemplate"
| "templateOf Maximum = maxOverTimeTemplate"
| "templateOf Minimum = minOverTimeTemplate"
| "templateOf Instantaneous = instantTemplate"

fun fieldOf :: "TemplateKind \<Rightarrow> PodMetric \<Rightarrow> float64" where
  "fieldOf Quantile95 = Q95Value"
| "fieldOf Average = AvgValue"
| "fieldOf Maximum = MaxValue"
| "fieldOf Minimum = MinValue"
| "fieldOf Instantaneous = InstValue"

fun rendered :: "TemplateKind \<Rightarrow> string \<Rightarrow> string \<Rightarrow> string" where
  "rendered Quantile95 tm rng = ''quantile_over_time(.95, '' @ tm @ ''['' @ rng @ ''])''"
| "rendered Average tm rng = ''avg_over_time('' @ tm @ ''['' @ rng @ ''])''"
| "rendered Maximum tm rng = ''max_over_time('' @ tm @ ''['' @ rng @ ''])''"
| "rendered Minimum tm rng = ''min_over_time('' @ tm @ ''['' @ rng @ ''])''"
| "rendered Instantaneous tm rng = tm"

text \<open>The label-join transform around a rendered query, and the parsed label template.\<close>

definition labelJoin :: "string \<Rightarrow> string" where
  "labelJoin query =
     ''sum by (pod, label_app) (kube_pod_labels{pod!=\"\"}) * on (pod) group_right(label_app) sum by (pod, namespace, node) (''
       @ query @ '')''"

definition appLabelsTmp :: "node list" where
  "appLabelsTmp =
     [TextNode ''sum by (pod, label_app) (kube_pod_labels{pod!=\"\"}) * on (pod) group_right(label_app) sum by (pod, namespace, node) ('',
      FieldNode ''Query'', TextNode '')'']"

subsection \<open>The aggregator on its own\<close>

text \<open>
  The fingerprint that an iteration computes when the hasher is in its initial state,
  and the fingerprint of a sample of the metric \<open>tm\<close>.
\<close>

definition fingerprint :: "string \<Rightarrow> string \<Rightarrow> string \<Rightarrow> 32 word" where
  "fingerprint ns pod tm = Sum32 (Write New32a (ns @ ''-'' @ pod @ ''-'' @ tm))"

definition sampleId :: "Sample \<Rightarrow> string \<Rightarrow> 32 word" where
  "sampleId sample tm = fingerprint (label sample ''namespace'') (label sample ''pod'') tm"

text \<open>
  What an iteration does to the record it found or created, and to the table. An input
  of the aggregator is a triple: the metric, the template and the sample.
\<close>

definition fill ::
  "(nat \<Rightarrow> string) \<Rightarrow> string \<Rightarrow> nat \<Rightarrow> string \<times> string \<times> Sample \<Rightarrow> PodMetric \<Rightarrow> PodMetric" where
  "fill layout rng now x pm =
     (case x of (tm, qt, sample) \<Rightarrow>
        storeValue qt (Value sample)
          (pm\<lparr>Namespace := label sample ''namespace'', Pod := label sample ''pod'',
              Metric := tm, LabelApp := label sample ''label_app'', Range := rng,
              QueryTime := layout now\<rparr>))"

definition inputId :: "string \<times> string \<times> Sample \<Rightarrow> 32 word" where
  "inputId x = (case x of (tm, qt, sample) \<Rightarrow> sampleId sample tm)"

definition tableStep ::
  "(nat \<Rightarrow> string) \<Rightarrow> string \<Rightarrow> nat \<Rightarrow> string \<times> string \<times> Sample \<Rightarrow> table \<Rightarrow> table" where
  "tableStep layout rng now x tbl =
     tbl(inputId x \<mapsto>
           fill layout rng now x (case tbl (inputId x) of None \<Rightarrow> newPodMetric | Some p \<Rightarrow> p))"

text \<open>
  The aggregator's fold over the stream of vectors, each with the metric and the
  template of the query that returned it: the sample loop of \<open>top\<close>, vector after vector.
  \<open>samplesOf\<close> lists the samples of the stream in the order in which they are folded.
\<close>

definition aggregate ::
  "(nat \<Rightarrow> string) \<Rightarrow> string \<Rightarrow> nat \<Rightarrow> ((string \<times> string) \<times> Sample list) list \<Rightarrow>
     hasher \<times> table \<Rightarrow> hasher \<times> table" where
  "aggregate layout rng now inputs st =
     fold (\<lambda>((tm, qt), vector). foldVector layout rng now tm qt vector) inputs st"

definition samplesOf ::
  "((string \<times> string) \<times> Sample list) list \<Rightarrow> (string \<times> string \<times> Sample) list" where
  "samplesOf inputs = concat (map (\<lambda>((tm, qt), vector). map (\<lambda>s. (tm, qt, s)) vector) inputs)"

text \<open>
  The last element of a list of inputs that satisfies \<open>P\<close>: the last sample folded
  under a key, or the last one of a kind, is the one whose assignments remain.
\<close>

definition lastWriter ::
  "(string \<times> string \<times> Sample \<Rightarrow> bool) \<Rightarrow> (string \<times> string \<times> Sample) list \<Rightarrow>
     (string \<times> string \<times> Sample) option" where
  "lastWriter P xs = List.find P (rev xs)"

subsection \<open>The calls of a run\<close>

text \<open>
  The two nested loops of \<open>top\<close> as one loop over the (metric, template) pairs, in the
  order of the loops.
\<close>

fun pairLoop ::
  "(nat \<Rightarrow> string) \<Rightarrow> 'b Config \<Rightarrow> node list \<Rightarrow> nat \<Rightarrow> (string \<times> string) list \<Rightarrow>
     'b world \<times> hasher \<times> table \<Rightarrow> 'b world \<times> (error + hasher \<times> table)" where
  "pairLoop layout cfg lbl now [] (w, loc) = (w, Inr loc)"
| "pairLoop layout cfg lbl now ((tm, qt) # ps) (w, loc) =
     (case queryStep layout cfg lbl now tm qt (w, loc) of
        (w', Inl e) \<Rightarrow> (w', Inl e)
      | (w', Inr loc') \<Rightarrow> pairLoop layout cfg lbl now ps (w', loc'))"

text \<open>
  The calls that were logged between two states of the world; whether a response is a
  vector without an error; the vector of a response; the error of a run that a response
  ends.
\<close>

definition issued :: "'b world \<Rightarrow> 'b world \<Rightarrow> (string \<times> nat \<times> response) list" where
  "issued w w' = drop (length (calls w)) (calls w')"

fun isVector :: "response \<Rightarrow> bool" where
  "isVector (Vector vector, warnings, None) = True"
| "isVector (queryValue, warnings, err) = False"

fun vectorOf :: "response \<Rightarrow> Sample list" where
  "vectorOf (Vector vector, warnings, err) = vector"
| "vectorOf (queryValue, warnings, err) = []"

fun failure :: "string \<Rightarrow> response \<Rightarrow> error" where
  "failure query (queryValue, warnings, Some e) = QueryFailed query e"
| "failure query (queryValue, warnings, None) = ExpectedVector"

text \<open>The queries that a run over the template kinds \<open>ks\<close> composes, in the order of the loops.\<close>

definition composedQueries :: "string \<Rightarrow> TemplateKind list \<Rightarrow> string list" where
  "composedQueries rng ks =
     concat (map (\<lambda>tm. map (\<lambda>k. labelJoin (rendered k tm rng)) ks) targetMetrics)"

text \<open>What a client returns, without the warnings.\<close>

definition dropWarnings :: "response \<times> 'b \<Rightarrow> model_Value \<times> string option \<times> 'b" where
  "dropWarnings r = (case r of ((queryValue, warnings, err), b) \<Rightarrow> (queryValue, err, b))"

subsection \<open>A backend for the examples\<close>

text \<open>
  One pod that reports the value 5.0 (as its 64 bits). Five clients: one that returns
  this pod's sample to every query, one that adds a warning to it, one that refuses
  every query, one that returns a scalar, and one that answers the first query and
  refuses the later ones (its backend counts the calls). A clock that starts at 1000,
  and a layout that prints a time as a T and the ticks since 1000.
\<close>

definition exampleSample :: Sample where
  "exampleSample =
     \<lparr>Sample.Metric = [''namespace'' \<mapsto> ''default'', ''pod'' \<mapsto> ''web-0'', ''label_app'' \<mapsto> ''web''],
      Value = 0x4014000000000000, Timestamp = 1000\<rparr>"

definition exampleClient :: "unit \<Rightarrow> go_context option \<Rightarrow> string \<Rightarrow> nat \<Rightarrow> response \<times> unit" where
  "exampleClient b ctx query ts = ((Vector [exampleSample], [], None), b)"

definition warningClient :: "unit \<Rightarrow> go_context option \<Rightarrow> string \<Rightarrow> nat \<Rightarrow> response \<times> unit" where
  "warningClient b ctx query ts = ((Vector [exampleSample], [''partial response''], None), b)"

definition failingClient :: "unit \<Rightarrow> go_context option \<Rightarrow> string \<Rightarrow> nat \<Rightarrow> response \<times> unit" where
  "failingClient b ctx query ts = ((NoValue, [], Some ''connection refused''), b)"

definition scalarClient :: "unit \<Rightarrow> go_context option \<Rightarrow> string \<Rightarrow> nat \<Rightarrow> response \<times> unit" where
  "scalarClient b ctx query ts = ((Scalar 0x4014000000000000, [], None), b)"

definition flakyClient :: "nat \<Rightarrow> go_context option \<Rightarrow> string \<Rightarrow> nat \<Rightarrow> response \<times> nat" where
  "flakyClient b ctx query ts =
     (if b = 0 then (Vector [exampleSample], [], None)
      else (NoValue, [], Some ''connection refused''),
      Suc b)"

definition flakyWorld :: "nat world" where
  "flakyWorld = \<lparr>clock = (\<lambda>n. 1000 + n), reads = 0, backend = 0, calls = []\<rparr>"

definition flakyConfig :: "string \<Rightarrow> nat Config" where
  "flakyConfig q =
     \<lparr>Context = Some Background, QueryType = q, Config.Range = ''10m'',
      PrometheusClient = flakyClient\<rparr>"

definition exampleWorld :: "unit world" where
  "exampleWorld = \<lparr>clock = (\<lambda>n. 1000 + n), reads = 0, backend = (), calls = []\<rparr>"

definition exampleConfig ::
  "string \<Rightarrow> (unit \<Rightarrow> go_context option \<Rightarrow> string \<Rightarrow> nat \<Rightarrow> response \<times> unit) \<Rightarrow> unit Config" where
  "exampleConfig q client =
     \<lparr>Context = Some Background, QueryType = q, Config.Range = ''10m'',
      PrometheusClient = client\<rparr>"

definition exampleLayout :: "nat \<Rightarrow> string" where
  "exampleLayout t = CHR ''T'' # replicate (t - 1000) (CHR ''+'')"

text \<open>A sample with the three labels, and a stream of two vectors for one pod and metric.\<close>

definition podSample :: "string \<Rightarrow> string \<Rightarrow> string \<Rightarrow> float64 \<Rightarrow> Sample" where
  "podSample ns pod app v =
     \<lparr>Sample.Metric = [''namespace'' \<mapsto> ns, ''pod'' \<mapsto> pod, ''label_app'' \<mapsto> app],
      Value = v, Timestamp = 1000\<rparr>"

definition exampleInputs :: "((string \<times> string) \<times> Sample list) list" where
  "exampleInputs =
     [((cpuMetric, quantileOverTimeTemplate), [podSample ''default'' ''web-0'' ''web'' 0x4014000000000000]),
      ((cpuMetric, avgOverTimeTemplate), [podSample ''default'' ''web-0'' ''web'' 0x401C000000000000])]"

section \<open>Properties\<close>

subsection \<open>Templates and composed queries\<close>

lemmas template_defs = quantileOverTimeTemplate_def avgOverTimeTemplate_def
  maxOverTimeTemplate_def minOverTimeTemplate_def instantTemplate_def

lemmas example_defs = exampleWorld_def exampleConfig_def exampleClient_def exampleSample_def
  exampleLayout_def

lemma Parse_appLabelQuery: "Parse appLabelQuery = Some appLabelsTmp"
  by (simp add: Parse_def appLabelQuery_def appLabelsTmp_def)

lemma Parse_templates:
  "Parse quantileOverTimeTemplate =
     Some [TextNode ''quantile_over_time(.95, '', FieldNode ''Metric'', TextNode ''['',
           FieldNode ''Range'', TextNode ''])'']"
  "Parse avgOverTimeTemplate =
     Some [TextNode ''avg_over_time('', FieldNode ''Metric'', TextNode ''['',
           FieldNode ''Range'', TextNode ''])'']"
  "Parse maxOverTimeTemplate =
     Some [TextNode ''max_over_time('', FieldNode ''Metric'', TextNode ''['',
           FieldNode ''Range'', TextNode ''])'']"
  "Parse minOverTimeTemplate =
     Some [TextNode ''min_over_time('', FieldNode ''Metric'', TextNode ''['',
           FieldNode ''Range'', TextNode ''])'']"
  "Parse instantTemplate = Some [TextNode [], FieldNode ''Metric'', TextNode []]"
  by (simp_all add: Parse_def template_defs)

lemma composeQuery_templateOf:
  "composeQuery appLabelsTmp rng tm (templateOf k) = Inr (labelJoin (rendered k tm rng))"
  by (cases k) (simp_all add: composeQuery_def Parse_templates appLabelsTmp_def labelJoin_def)

lemma storeValue_templates:
  "storeValue quantileOverTimeTemplate v pm = pm\<lparr>Q95Value := v\<rparr>"
  "storeValue avgOverTimeTemplate v pm = pm\<lparr>AvgValue := v\<rparr>"
  "storeValue maxOverTimeTemplate v pm = pm\<lparr>MaxValue := v\<rparr>"
  "storeValue minOverTimeTemplate v pm = pm\<lparr>MinValue := v\<rparr>"
  "storeValue instantTemplate v pm = pm\<lparr>MinValue := v\<rparr>"
  by (simp_all add: storeValue_def template_defs)

lemma templateOf_inj: "templateOf k = templateOf k' \<longleftrightarrow> k = k'"
  by (cases k; cases k') (simp_all add: template_defs)

text \<open>
  C4. The registry never fails. The quantile selector \<^verbatim>\<open>q\<close> selects the quantile
  template alone, the average selector \<^verbatim>\<open>a\<close> the average template alone, the instant
  selector \<^verbatim>\<open>i\<close> the instantaneous template alone; the empty selector and every other
  string select the quantile, average, maximum and minimum templates, in this order,
  and the instantaneous template is not among these four. Whatever the selector, the
  selection is a non-empty list of distinct template kinds.
\<close>

theorem registry_fixed_sets:
  "selectQueryTemplates ''q'' = Inr [templateOf Quantile95]
   \<and> selectQueryTemplates ''a'' = Inr [templateOf Average]
   \<and> selectQueryTemplates ''i'' = Inr [templateOf Instantaneous]
   \<and> selectQueryTemplates [] = Inr (map templateOf [Quantile95, Average, Maximum, Minimum])
   \<and> (q \<noteq> ''q'' \<and> q \<noteq> ''a'' \<and> q \<noteq> ''i'' \<longrightarrow>
        selectQueryTemplates q = Inr (map templateOf [Quantile95, Average, Maximum, Minimum]))
   \<and> templateOf Instantaneous \<notin> set (map templateOf [Quantile95, Average, Maximum, Minimum])
   \<and> (\<exists>ks. ks \<noteq> [] \<and> distinct ks \<and> selectQueryTemplates q = Inr (map templateOf ks))"
proof -
  have ex: "\<exists>ks. ks \<noteq> [] \<and> distinct ks \<and> selectQueryTemplates q = Inr (map templateOf ks)"
  proof (cases "q = ''q'' \<or> q = ''a'' \<or> q = ''i''")
    case True
    then consider "q = ''q''" | "q = ''a''" | "q = ''i''" by blast
    then show ?thesis
    proof cases
      case 1 then show ?thesis
        by (intro exI [of _ "[Quantile95]"]) (simp add: selectQueryTemplates_def)
    next
      case 2 then show ?thesis
        by (intro exI [of _ "[Average]"]) (simp add: selectQueryTemplates_def)
    next
      case 3 then show ?thesis
        by (intro exI [of _ "[Instantaneous]"]) (simp add: selectQueryTemplates_def)
    qed
  next
    case False
    then show ?thesis
      by (intro exI [of _ "[Quantile95, Average, Maximum, Minimum]"])
         (simp add: selectQueryTemplates_def)
  qed
  have notin:
    "templateOf Instantaneous \<notin> set (map templateOf [Quantile95, Average, Maximum, Minimum])"
    by (simp add: template_defs)
  show ?thesis using ex notin
    by (simp add: selectQueryTemplates_def)
qed

theorem registry_fixed_sets_witness:
  "selectQueryTemplates ''typo'' = Inr (map templateOf [Quantile95, Average, Maximum, Minimum])"
  using registry_fixed_sets [of "''typo''"] by simp

subsection \<open>One iteration of the sample loop\<close>

lemma foldSample_New32a:
  "foldSample layout rng now tm qt sample (New32a, tbl) =
     (New32a, tableStep layout rng now (tm, qt, sample) tbl)"
  by (simp add: foldSample_def tableStep_def fill_def inputId_def sampleId_def fingerprint_def
        Reset_def New32a_def Let_def)

lemma fingerprint_web0:
  "fingerprint ''default'' ''web-0'' cpuMetric = 743081908"
  "fingerprint ''default'' ''web-0'' memoryMetric = 1345253740"
  by (simp_all add: fingerprint_def Sum32_def Write_def New32a_def offset32_def prime32_def
        cpuMetric_def memoryMetric_def)

text \<open>
  C1. A run with the instant selector against a backend where one pod reports 5.0 for
  each metric: the two queries are the label-joined metric names, and each of the two
  records holds the sample's value in its minimum field, while its instantaneous field
  keeps the zero value (as do the quantile, average and maximum fields).
\<close>

theorem instant_sample_stored_in_MinValue:
  "top exampleLayout (exampleConfig ''i'' exampleClient) exampleWorld =
     (exampleWorld\<lparr>reads := 1,
        calls := [(labelJoin cpuMetric, 1000, Vector [exampleSample], [], None),
                  (labelJoin memoryMetric, 1000, Vector [exampleSample], [], None)]\<rparr>,
      Inr [743081908 \<mapsto>
             \<lparr>Metric = cpuMetric, Range = ''10m'', Pod = ''web-0'', Namespace = ''default'',
              LabelApp = ''web'', QueryTime = ''T'', Q95Value = 0, MaxValue = 0,
              MinValue = 0x4014000000000000, AvgValue = 0, InstValue = 0\<rparr>,
           1345253740 \<mapsto>
             \<lparr>Metric = memoryMetric, Range = ''10m'', Pod = ''web-0'', Namespace = ''default'',
              LabelApp = ''web'', QueryTime = ''T'', Q95Value = 0, MaxValue = 0,
              MinValue = 0x4014000000000000, AvgValue = 0, InstValue = 0\<rparr>])"
  by (simp add: top_def Now_def example_defs selectQueryTemplates_def
     Parse_appLabelQuery targetMetrics_def queryStep_def Query_def
     composeQuery_templateOf [of _ _ Instantaneous, simplified]
     foldVector_def foldSample_New32a tableStep_def fill_def inputId_def sampleId_def
     label_def fingerprint_web0 storeValue_templates newPodMetric_def)

text \<open>
  C8. The label template of \<open>top\<close> selects the label metadata with the single matcher
  \<^verbatim>\<open>pod!=""\<close>: the query composed for the CPU metric and the instantaneous template is
  the string below, and the template has no matcher on \<^verbatim>\<open>label_app\<close>. The constant of
  the same name in \<^verbatim>\<open>pkg/top/queries.go\<close> has both matchers. Both join on the pod and
  group the query by pod, namespace and node.
\<close>

theorem label_join_matches_pod_only:
  "composeQuery appLabelsTmp ''10m'' cpuMetric instantTemplate =
     Inr ''sum by (pod, label_app) (kube_pod_labels{pod!=\"\"}) * on (pod) group_right(label_app) sum by (pod, namespace, node) (container_cpu_usage_seconds_total)''
   \<and> Parse appLabelQuery = Some appLabelsTmp
   \<and> Contains appLabelQuery ''(kube_pod_labels{pod!=\"\"})''
   \<and> \<not> Contains appLabelQuery ''label_app!=''
   \<and> Contains appLabelQuery_queries_go ''(kube_pod_labels{pod!=\"\", label_app!=\"\"})''
   \<and> Contains appLabelQuery '' * on (pod) group_right(label_app) sum by (pod, namespace, node) (''
   \<and> Contains appLabelQuery_queries_go '' * on (pod) group_right(label_app) sum by (pod, namespace, node) (''"
proof -
  have "composeQuery appLabelsTmp ''10m'' cpuMetric (templateOf Instantaneous) =
          Inr (labelJoin (rendered Instantaneous cpuMetric ''10m''))"
    by (rule composeQuery_templateOf)
  then have c: "composeQuery appLabelsTmp ''10m'' cpuMetric instantTemplate =
     Inr ''sum by (pod, label_app) (kube_pod_labels{pod!=\"\"}) * on (pod) group_right(label_app) sum by (pod, namespace, node) (container_cpu_usage_seconds_total)''"
    by (simp add: labelJoin_def cpuMetric_def)
  have 1: "Contains appLabelQuery ''(kube_pod_labels{pod!=\"\"})''"
    by (simp add: appLabelQuery_def)
  have 2: "\<not> Contains appLabelQuery ''label_app!=''"
    by (simp add: appLabelQuery_def)
  have 3: "Contains appLabelQuery_queries_go ''(kube_pod_labels{pod!=\"\", label_app!=\"\"})''"
    by (simp add: appLabelQuery_queries_go_def)
  have 4: "Contains appLabelQuery '' * on (pod) group_right(label_app) sum by (pod, namespace, node) (''"
    by (simp add: appLabelQuery_def)
  have 5: "Contains appLabelQuery_queries_go '' * on (pod) group_right(label_app) sum by (pod, namespace, node) (''"
    by (simp add: appLabelQuery_queries_go_def)
  show ?thesis using c 1 2 3 4 5 Parse_appLabelQuery by blast
qed

subsection \<open>The aggregator as a fold of table steps\<close>

lemma storeValue_shape:
  obtains (quantile) "\<And>v pm. storeValue qt v pm = pm\<lparr>Q95Value := v\<rparr>"
  | (average) "\<And>v pm. storeValue qt v pm = pm\<lparr>AvgValue := v\<rparr>"
  | (maximum) "\<And>v pm. storeValue qt v pm = pm\<lparr>MaxValue := v\<rparr>"
  | (minimum) "\<And>v pm. storeValue qt v pm = pm\<lparr>MinValue := v\<rparr>"
  | (none) "\<And>v pm. storeValue qt v pm = pm"
proof (cases "Contains qt ''quantile_over_time''")
  case True
  then show ?thesis by (intro quantile) (simp only: storeValue_def if_True)
next
  case q: False
  show ?thesis
  proof (cases "Contains qt ''avg_over_time''")
    case True
    with q show ?thesis by (intro average) (simp only: storeValue_def if_True if_False)
  next
    case a: False
    show ?thesis
    proof (cases "Contains qt ''max_over_time''")
      case True
      with q a show ?thesis by (intro maximum) (simp only: storeValue_def if_True if_False)
    next
      case m: False
      show ?thesis
      proof (cases "Contains qt ''min_over_time''")
        case True
        with q a m show ?thesis by (intro minimum) (simp only: storeValue_def if_True if_False)
      next
        case n: False
        show ?thesis
        proof (cases "length qt > 0")
          case True
          with q a m n show ?thesis
            by (intro minimum) (simp only: storeValue_def if_True if_False)
        next
          case False
          with q a m n show ?thesis
            by (intro none) (simp only: storeValue_def if_True if_False)
        qed
      qed
    qed
  qed
qed

lemma fill_idem: "fill layout rng now x (fill layout rng now x pm) = fill layout rng now x pm"
proof -
  obtain tm qt s where x: "x = (tm, qt, s)" by (cases x)
  show ?thesis
    by (cases qt rule: storeValue_shape) (simp_all add: x fill_def)
qed

lemma fill_absorb:
  "fill layout rng now x (fill layout rng now y (fill layout rng now x pm)) =
     fill layout rng now x (fill layout rng now y pm)"
proof -
  obtain tm qt s where x: "x = (tm, qt, s)" by (cases x)
  obtain tm' qt' s' where y: "y = (tm', qt', s')" by (cases y)
  show ?thesis
    by (cases qt rule: storeValue_shape; cases qt' rule: storeValue_shape)
       (simp_all add: x y fill_def)
qed

lemma foldVector_New32a:
  "foldVector layout rng now tm qt vector (New32a, tbl) =
     (New32a, fold (tableStep layout rng now) (map (\<lambda>s. (tm, qt, s)) vector) tbl)"
  by (induction vector arbitrary: tbl) (simp_all add: foldVector_def foldSample_New32a)

lemma aggregate_Nil: "aggregate layout rng now [] st = st"
  by (simp add: aggregate_def)

lemma aggregate_Cons:
  "aggregate layout rng now (((tm, qt), vector) # inputs) st =
     aggregate layout rng now inputs (foldVector layout rng now tm qt vector st)"
  by (simp add: aggregate_def)

lemma samplesOf_Cons:
  "samplesOf (((tm, qt), vector) # inputs) = map (\<lambda>s. (tm, qt, s)) vector @ samplesOf inputs"
  by (simp add: samplesOf_def)

lemma aggregate_New32a:
  "aggregate layout rng now inputs (New32a, tbl) =
     (New32a, fold (tableStep layout rng now) (samplesOf inputs) tbl)"
proof (induction inputs arbitrary: tbl)
  case Nil
  show ?case by (simp add: aggregate_Nil samplesOf_def)
next
  case (Cons x inputs)
  obtain tm qt vector where x: "x = ((tm, qt), vector)"
    by (metis surj_pair)
  show ?case
    by (simp add: x aggregate_Cons samplesOf_Cons foldVector_New32a Cons.IH)
qed

lemma set_samplesOf:
  "(tm, qt, s) \<in> set (samplesOf inputs) \<longleftrightarrow> (\<exists>v. ((tm, qt), v) \<in> set inputs \<and> s \<in> set v)"
proof (induction inputs)
  case Nil
  show ?case by (simp add: samplesOf_def)
next
  case (Cons x inputs)
  obtain tm' qt' v' where x: "x = ((tm', qt'), v')"
    by (metis surj_pair)
  show ?case
    unfolding x samplesOf_Cons using Cons.IH by auto
qed

lemma tableStep_idem:
  "tableStep layout rng now x (tableStep layout rng now x tbl) = tableStep layout rng now x tbl"
  by (simp only: tableStep_def fun_upd_same fun_upd_upd option.case fill_idem)

lemma tableStep_absorb:
  "tableStep layout rng now x (tableStep layout rng now y (tableStep layout rng now x tbl)) =
     tableStep layout rng now x (tableStep layout rng now y tbl)"
proof (cases "inputId x = inputId y")
  case True
  then show ?thesis
    by (simp only: tableStep_def fun_upd_same fun_upd_upd option.case fill_absorb)
next
  case False
  then have ne: "inputId y \<noteq> inputId x" by (rule not_sym)
  show ?thesis
    by (simp only: tableStep_def fun_upd_same fun_upd_upd fun_upd_other [OF False]
          fun_upd_other [OF ne] option.case fill_idem fun_upd_twist [OF ne])
qed

lemma fold_absorb_one:
  assumes idem: "\<And>a t. f a (f a t) = f a t"
    and absorb: "\<And>a b t. f a (f b (f a t)) = f a (f b t)"
  shows "a \<in> set w \<Longrightarrow> fold f w (f a t) = fold f w t"
proof (induction w arbitrary: t)
  case Nil
  then show ?case by simp
next
  case (Cons b w)
  show ?case
  proof (cases "a = b")
    case True
    then show ?thesis by (simp add: idem)
  next
    case False
    with Cons.prems have mem: "a \<in> set w" by simp
    have "fold f w (f b (f a t)) = fold f w (f a (f b (f a t)))"
      by (rule Cons.IH [OF mem, symmetric])
    also have "\<dots> = fold f w (f a (f b t))" by (simp only: absorb)
    also have "\<dots> = fold f w (f b t)" by (rule Cons.IH [OF mem])
    finally show ?thesis by simp
  qed
qed

lemma fold_absorb:
  assumes idem: "\<And>a t. f a (f a t) = f a t"
    and absorb: "\<And>a b t. f a (f b (f a t)) = f a (f b t)"
  shows "set u \<subseteq> set w \<Longrightarrow> fold f w (fold f u t) = fold f w t"
proof (induction u arbitrary: t)
  case Nil
  then show ?case by simp
next
  case (Cons a u)
  from Cons.prems have sub: "set u \<subseteq> set w" and mem: "a \<in> set w" by simp_all
  have "fold f w (fold f (a # u) t) = fold f w (fold f u (f a t))" by simp
  also have "\<dots> = fold f w (f a t)" by (rule Cons.IH [OF sub])
  also have "\<dots> = fold f w t"
    by (rule fold_absorb_one [where f = f and a = a and w = w and t = t, OF idem absorb mem])
  finally show ?case .
qed

lemma fold_tableStep_twice:
  "fold (tableStep layout rng now) xs (fold (tableStep layout rng now) xs tbl) =
     fold (tableStep layout rng now) xs tbl"
proof -
  have idem: "\<And>a t. tableStep layout rng now a (tableStep layout rng now a t) =
      tableStep layout rng now a t"
    by (rule tableStep_idem)
  have absorb: "\<And>a b t. tableStep layout rng now a (tableStep layout rng now b
      (tableStep layout rng now a t)) = tableStep layout rng now a (tableStep layout rng now b t)"
    by (rule tableStep_absorb)
  show ?thesis
    by (rule fold_absorb [where f = "tableStep layout rng now" and u = xs and w = xs and t = tbl,
          OF idem absorb subset_refl])
qed

text \<open>
  C9. Folding a stream of vectors into the table that the same stream (with the same
  range and evaluation time) has already been folded into leaves the table as it is,
  whatever the table was before: every assignment of the second fold writes the value
  that the field already holds. The records are compared as values, bit for bit; the
  order of the output slice is not part of them.
\<close>

theorem refold_changes_nothing:
  "aggregate layout rng now inputs (aggregate layout rng now inputs (New32a, tbl)) =
     aggregate layout rng now inputs (New32a, tbl)"
  by (simp add: aggregate_New32a fold_tableStep_twice)

subsection \<open>What the table holds\<close>

lemma fill_descriptive:
  "Namespace (fill layout rng now (tm, qt, s) pm) = label s ''namespace''"
  "Pod (fill layout rng now (tm, qt, s) pm) = label s ''pod''"
  "Metric (fill layout rng now (tm, qt, s) pm) = tm"
  "LabelApp (fill layout rng now (tm, qt, s) pm) = label s ''label_app''"
  "Range (fill layout rng now (tm, qt, s) pm) = rng"
  "QueryTime (fill layout rng now (tm, qt, s) pm) = layout now"
  "InstValue (fill layout rng now (tm, qt, s) pm) = InstValue pm"
  by (cases qt rule: storeValue_shape; simp add: fill_def)+

lemma fieldOf_fill:
  assumes "k \<noteq> Instantaneous" "k' \<noteq> Instantaneous"
  shows "fieldOf k (fill layout rng now (tm, templateOf k', s) pm) =
           (if k = k' then Value s else fieldOf k pm)"
  using assms by (cases k; cases k') (simp_all add: fill_def storeValue_templates)

lemma tableStep_apply:
  "tableStep layout rng now x tbl k =
     (if k = inputId x
      then Some (fill layout rng now x (case tbl k of None \<Rightarrow> newPodMetric | Some p \<Rightarrow> p))
      else tbl k)"
  by (simp add: tableStep_def)

lemma fold_tableStep_snoc:
  "fold (tableStep layout rng now) (xs @ [y]) tbl k =
     (if k = inputId y
      then Some (fill layout rng now y
                  (case fold (tableStep layout rng now) xs tbl k of
                     None \<Rightarrow> newPodMetric | Some p \<Rightarrow> p))
      else fold (tableStep layout rng now) xs tbl k)"
proof -
  have "fold (tableStep layout rng now) (xs @ [y]) tbl =
          tableStep layout rng now y (fold (tableStep layout rng now) xs tbl)"
    by simp
  then show ?thesis
    using tableStep_apply [of layout rng now y "fold (tableStep layout rng now) xs tbl" k]
    by (simp only:)
qed

lemma fold_tableStep_defined:
  "x \<in> set xs \<Longrightarrow> \<exists>pm. fold (tableStep layout rng now) xs tbl (inputId x) = Some pm"
proof (induction xs arbitrary: x rule: rev_induct)
  case Nil
  then show ?case by simp
next
  case (snoc y xs)
  show ?case
  proof (cases "inputId x = inputId y")
    case True
    then show ?thesis by (simp only: fold_tableStep_snoc simp_thms if_True) blast
  next
    case False
    with snoc.prems have "x \<in> set xs" by auto
    from snoc.IH [OF this] False show ?thesis
      by (simp only: fold_tableStep_snoc if_False)
  qed
qed

lemma fold_tableStep_invariant:
  assumes init: "\<And>k pm. tbl k = Some pm \<Longrightarrow> P k pm"
    and step: "\<And>x pm. x \<in> set xs \<Longrightarrow> pm = newPodMetric \<or> P (inputId x) pm \<Longrightarrow>
                 P (inputId x) (fill layout rng now x pm)"
  shows "fold (tableStep layout rng now) xs tbl k = Some pm \<Longrightarrow> P k pm"
  using step
proof (induction xs arbitrary: k pm rule: rev_induct)
  case Nil
  then show ?case using init by simp
next
  case (snoc y xs)
  let ?T = "fold (tableStep layout rng now) xs tbl"
  have IH: "\<And>k pm. ?T k = Some pm \<Longrightarrow> P k pm"
    using snoc.IH snoc.prems(2) by simp
  show ?case
  proof (cases "k = inputId y")
    case True
    with snoc.prems(1)
    have pm: "pm = fill layout rng now y (case ?T k of None \<Rightarrow> newPodMetric | Some p \<Rightarrow> p)"
      by (simp only: fold_tableStep_snoc simp_thms if_True option.inject)
    have "(case ?T k of None \<Rightarrow> newPodMetric | Some p \<Rightarrow> p) = newPodMetric
        \<or> P (inputId y) (case ?T k of None \<Rightarrow> newPodMetric | Some p \<Rightarrow> p)"
      using IH [of k] True by (cases "?T k") simp_all
    then have "P (inputId y) (fill layout rng now y (case ?T k of None \<Rightarrow> newPodMetric | Some p \<Rightarrow> p))"
      by (intro snoc.prems(2)) simp_all
    with pm True show ?thesis by simp
  next
    case False
    with snoc.prems(1) have "?T k = Some pm"
      by (simp only: fold_tableStep_snoc if_False)
    then show ?thesis by (rule IH)
  qed
qed

lemma fold_tableStep_keyed:
  assumes "fold (tableStep layout rng now) xs Map.empty k = Some pm"
  shows "fingerprint (Namespace pm) (Pod pm) (Metric pm) = k \<and> Range pm = rng
          \<and> QueryTime pm = layout now \<and> InstValue pm = 0"
proof (rule fold_tableStep_invariant [where P = "\<lambda>k pm. fingerprint (Namespace pm) (Pod pm) (Metric pm) = k \<and> Range pm = rng
          \<and> QueryTime pm = layout now \<and> InstValue pm = 0", OF _ _ assms])
  fix k pm
  assume "Map.empty k = Some (pm :: PodMetric)"
  then show "fingerprint (Namespace pm) (Pod pm) (Metric pm) = k \<and> Range pm = rng
          \<and> QueryTime pm = layout now \<and> InstValue pm = 0" by simp
next
  fix x :: "string \<times> string \<times> Sample" and pm
  assume pre: "pm = newPodMetric \<or> (fingerprint (Namespace pm) (Pod pm) (Metric pm) = inputId x \<and> Range pm = rng
          \<and> QueryTime pm = layout now \<and> InstValue pm = 0)"
  obtain tm qt s where x: "x = (tm, qt, s)" by (cases x)
  have "InstValue pm = 0" using pre by (auto simp: newPodMetric_def)
  then show "fingerprint (Namespace (fill layout rng now x pm)) (Pod (fill layout rng now x pm))
        (Metric (fill layout rng now x pm)) = inputId x \<and> Range (fill layout rng now x pm) = rng
          \<and> QueryTime (fill layout rng now x pm) = layout now \<and> InstValue (fill layout rng now x pm) = 0"
    by (simp add: x fill_descriptive inputId_def sampleId_def)
qed

lemma selection_cases:
  assumes "selectQueryTemplates q = Inr qts"
  shows "qts = [templateOf Quantile95] \<or> qts = [templateOf Average]
         \<or> qts = [templateOf Instantaneous]
         \<or> qts = map templateOf [Quantile95, Average, Maximum, Minimum]"
  using assms by (auto simp: selectQueryTemplates_def split: if_splits)

lemma selection_two_kinds:
  assumes sel: "selectQueryTemplates q = Inr qts"
    and k1: "templateOf k1 \<in> set qts" and k2: "templateOf k2 \<in> set qts" and ne: "k1 \<noteq> k2"
    and qt: "qt \<in> set qts"
  shows "\<exists>k. k \<noteq> Instantaneous \<and> qt = templateOf k"
proof -
  from selection_cases [OF sel] consider
    (one) k where "qts = [templateOf k]"
    | (four) "qts = map templateOf [Quantile95, Average, Maximum, Minimum]"
    by blast
  then show ?thesis
  proof cases
    case one
    with k1 k2 have "templateOf k1 = templateOf k2" by simp
    with ne show ?thesis by (simp add: templateOf_inj)
  next
    case four
    with qt have "qt = templateOf Quantile95 \<or> qt = templateOf Average
        \<or> qt = templateOf Maximum \<or> qt = templateOf Minimum"
      by simp
    then show ?thesis by (elim disjE) (rule exI, rule conjI [rotated], assumption, simp)+
  qed
qed

lemma lastWriter_snoc:
  "lastWriter P (xs @ [y]) = (if P y then Some y else lastWriter P xs)"
  by (simp add: lastWriter_def)

lemma lastWriter_Some:
  "lastWriter P xs = Some x \<Longrightarrow> P x \<and> x \<in> set xs"
  by (induction xs rule: rev_induct) (auto simp: lastWriter_snoc lastWriter_def split: if_splits)

lemma lastWriter_exists:
  "x \<in> set xs \<Longrightarrow> P x \<Longrightarrow> \<exists>y. lastWriter P xs = Some y"
  by (induction xs rule: rev_induct) (auto simp: lastWriter_snoc)

lemma fold_tableStep_last_descriptive:
  assumes "lastWriter (\<lambda>x. inputId x = key) xs = Some (tmL, qtL, sL)"
  shows "\<exists>pm. fold (tableStep layout rng now) xs tbl key = Some pm
           \<and> Namespace pm = label sL ''namespace'' \<and> Pod pm = label sL ''pod''
           \<and> Metric pm = tmL \<and> LabelApp pm = label sL ''label_app''"
  using assms
proof (induction xs rule: rev_induct)
  case Nil
  then show ?case by (simp add: lastWriter_def)
next
  case (snoc y xs)
  let ?T = "fold (tableStep layout rng now) xs tbl"
  show ?case
  proof (cases "inputId y = key")
    case True
    with snoc.prems have y: "y = (tmL, qtL, sL)" by (simp add: lastWriter_snoc)
    have "fold (tableStep layout rng now) (xs @ [y]) tbl key =
            Some (fill layout rng now (tmL, qtL, sL)
                    (case ?T key of None \<Rightarrow> newPodMetric | Some p \<Rightarrow> p))"
      using True by (simp only: fold_tableStep_snoc simp_thms if_True y)
    then show ?thesis by (simp add: fill_descriptive)
  next
    case False
    with snoc.prems have "lastWriter (\<lambda>x. inputId x = key) xs = Some (tmL, qtL, sL)"
      by (simp add: lastWriter_snoc)
    from snoc.IH [OF this] obtain pm where pm: "?T key = Some pm"
      "Namespace pm = label sL ''namespace''" "Pod pm = label sL ''pod''"
      "Metric pm = tmL" "LabelApp pm = label sL ''label_app''"
      by blast
    have "fold (tableStep layout rng now) (xs @ [y]) tbl key = ?T key"
      using False by (simp only: fold_tableStep_snoc) simp
    with pm show ?thesis by simp
  qed
qed

lemma fold_tableStep_last_value:
  assumes win: "\<And>tm' qt' s'. (tm', qt', s') \<in> set xs \<Longrightarrow>
                  \<exists>k'. k' \<noteq> Instantaneous \<and> qt' = templateOf k'"
    and k: "k \<noteq> Instantaneous"
    and last: "lastWriter (\<lambda>x. inputId x = key \<and> fst (snd x) = templateOf k) xs = Some (tmL, qtL, sL)"
  shows "\<exists>pm. fold (tableStep layout rng now) xs tbl key = Some pm \<and> fieldOf k pm = Value sL"
  using win last
proof (induction xs rule: rev_induct)
  case Nil
  then show ?case by (simp add: lastWriter_def)
next
  case (snoc y xs)
  let ?T = "fold (tableStep layout rng now) xs tbl"
  let ?P = "\<lambda>x. inputId x = key \<and> fst (snd x) = templateOf k"
  let ?old = "case ?T key of None \<Rightarrow> newPodMetric | Some p \<Rightarrow> p"
  obtain tmy qty sy where y: "y = (tmy, qty, sy)" by (cases y)
  from snoc.prems(1) [of tmy qty sy] obtain ky where ky: "ky \<noteq> Instantaneous" "qty = templateOf ky"
    by (auto simp: y)
  have winxs: "\<And>tm' qt' s'. (tm', qt', s') \<in> set xs \<Longrightarrow>
                  \<exists>k'. k' \<noteq> Instantaneous \<and> qt' = templateOf k'"
    using snoc.prems(1) by auto
  have IH: "\<exists>pm. ?T key = Some pm \<and> fieldOf k pm = Value sL"
    if l: "lastWriter ?P xs = Some (tmL, qtL, sL)"
  proof (rule snoc.IH)
    show "\<And>tm' qt' s'. (tm', qt', s') \<in> set xs \<Longrightarrow>
            \<exists>k'. k' \<noteq> Instantaneous \<and> qt' = templateOf k'"
      by (rule winxs)
    show "lastWriter ?P xs = Some (tmL, qtL, sL)" by (rule l)
  qed
  show ?case
  proof (cases "inputId y = key")
    case same: True
    have new: "fold (tableStep layout rng now) (xs @ [y]) tbl key =
                 Some (fill layout rng now y ?old)"
      using same by (simp only: fold_tableStep_snoc simp_thms if_True)
    show ?thesis
    proof (cases "ky = k")
      case True
      with same snoc.prems(2) have "y = (tmL, qtL, sL)"
        by (simp add: lastWriter_snoc y ky(2))
      then have sy: "sy = sL" by (simp add: y)
      have "fieldOf k (fill layout rng now y ?old) = Value sy"
        using fieldOf_fill [OF k ky(1), of layout rng now tmy sy ?old] True
        by (simp add: y ky(2))
      with new sy show ?thesis by simp
    next
      case False
      then have "\<not> ?P y" by (simp add: y ky(2) templateOf_inj)
      with snoc.prems(2) have "lastWriter ?P xs = Some (tmL, qtL, sL)"
        by (simp add: lastWriter_snoc)
      from IH [OF this] obtain pm where pm: "?T key = Some pm" "fieldOf k pm = Value sL"
        by blast
      have "fieldOf k (fill layout rng now y ?old) = fieldOf k pm"
        using fieldOf_fill [OF k ky(1), of layout rng now tmy sy pm] False
        by (simp add: y ky(2) pm)
      with new pm show ?thesis by simp
    qed
  next
    case other: False
    then have "\<not> ?P y" by simp
    with snoc.prems(2) have "lastWriter ?P xs = Some (tmL, qtL, sL)"
      by (simp add: lastWriter_snoc)
    from IH [OF this] obtain pm where pm: "?T key = Some pm" "fieldOf k pm = Value sL"
      by blast
    have "fold (tableStep layout rng now) (xs @ [y]) tbl key = ?T key"
      using other by (simp only: fold_tableStep_snoc) simp
    with pm show ?thesis by simp
  qed
qed

lemma label_podSample:
  "label (podSample ns pod app v) ''namespace'' = ns"
  "label (podSample ns pod app v) ''pod'' = pod"
  "label (podSample ns pod app v) ''label_app'' = app"
  "Value (podSample ns pod app v) = v"
  by (simp_all add: label_def podSample_def)

lemma sampleId_podSample: "sampleId (podSample ns pod app v) tm = fingerprint ns pod tm"
  by (simp add: sampleId_def label_podSample)

lemma Write_append: "Write h (a @ b) = Write (Write h a) b"
  by (simp add: Write_def)

lemma costarring_liquid:
  "Write New32a ''costarring'' = Write New32a ''liquid''"
  by (simp add: Write_def New32a_def offset32_def prime32_def)

lemma fingerprint_collision:
  "fingerprint ''costarring'' pod tm = fingerprint ''liquid'' pod tm"
  by (simp only: fingerprint_def Write_append costarring_liquid)

text \<open>
  C2, as amended. In one run (all templates of the stream come from one selection of
  the registry), take two samples of the same metric, namespace and pod that two
  different template kinds returned, and let no sample of another namespace, pod or
  metric in the stream have their fingerprint. The two samples have one fingerprint,
  and the table holds one record under it. The record's namespace, pod and metric are
  the samples', its range and timestamp are the run's, its deployment label is that of
  the last sample folded under the fingerprint, and its field of either kind holds the
  value of the last sample of that kind folded under the fingerprint (the sample's own
  value when it is the only one). No other key of the table holds a record with this
  namespace, pod and metric.
\<close>

theorem same_identity_one_record:
  assumes sel: "selectQueryTemplates q = Inr qts"
    and run: "\<forall>((tm', qt'), v') \<in> set inputs. qt' \<in> set qts"
    and in1: "((tm, templateOf k1), v1) \<in> set inputs" "s1 \<in> set v1"
    and in2: "((tm, templateOf k2), v2) \<in> set inputs" "s2 \<in> set v2"
    and kinds: "k1 \<noteq> k2"
    and same: "label s1 ''namespace'' = label s2 ''namespace''" "label s1 ''pod'' = label s2 ''pod''"
    and alone: "\<forall>(tm', qt', s') \<in> set (samplesOf inputs).
        sampleId s' tm' = sampleId s1 tm \<longrightarrow>
          label s' ''namespace'' = label s1 ''namespace'' \<and> label s' ''pod'' = label s1 ''pod''
          \<and> tm' = tm"
  shows "sampleId s2 tm = sampleId s1 tm
    \<and> (\<exists>pm tmL qtL sL tm1 l1 tm2 l2.
          snd (aggregate layout rng now inputs (New32a, Map.empty)) (sampleId s1 tm) = Some pm
        \<and> Namespace pm = label s1 ''namespace'' \<and> Pod pm = label s1 ''pod'' \<and> Metric pm = tm
        \<and> Range pm = rng \<and> QueryTime pm = layout now
        \<and> lastWriter (\<lambda>x. inputId x = sampleId s1 tm) (samplesOf inputs) = Some (tmL, qtL, sL)
        \<and> LabelApp pm = label sL ''label_app''
        \<and> lastWriter (\<lambda>x. inputId x = sampleId s1 tm \<and> fst (snd x) = templateOf k1)
              (samplesOf inputs) = Some (tm1, templateOf k1, l1)
        \<and> fieldOf k1 pm = Value l1
        \<and> lastWriter (\<lambda>x. inputId x = sampleId s1 tm \<and> fst (snd x) = templateOf k2)
              (samplesOf inputs) = Some (tm2, templateOf k2, l2)
        \<and> fieldOf k2 pm = Value l2)
    \<and> (\<forall>k pm'. snd (aggregate layout rng now inputs (New32a, Map.empty)) k = Some pm'
          \<and> Namespace pm' = label s1 ''namespace'' \<and> Pod pm' = label s1 ''pod'' \<and> Metric pm' = tm
          \<longrightarrow> k = sampleId s1 tm)"
proof -
  let ?xs = "samplesOf inputs"
  let ?key = "sampleId s1 tm"
  let ?T = "fold (tableStep layout rng now) ?xs Map.empty"
  have tbl: "snd (aggregate layout rng now inputs (New32a, Map.empty)) = ?T"
    by (simp add: aggregate_New32a)
  have ids: "sampleId s2 tm = ?key"
    using same by (simp add: sampleId_def)
  have t1: "templateOf k1 \<in> set qts" and t2: "templateOf k2 \<in> set qts"
    using run in1(1) in2(1) by auto
  have win: "\<exists>k'. k' \<noteq> Instantaneous \<and> qt' = templateOf k'"
    if "(tm', qt', s') \<in> set ?xs" for tm' qt' s'
  proof -
    from that obtain v' where "((tm', qt'), v') \<in> set inputs"
      by (auto simp: set_samplesOf)
    with run have "qt' \<in> set qts" by auto
    then show ?thesis by (rule selection_two_kinds [OF sel t1 t2 kinds])
  qed
  have m1: "(tm, templateOf k1, s1) \<in> set ?xs" using in1 by (auto simp: set_samplesOf)
  have m2: "(tm, templateOf k2, s2) \<in> set ?xs" using in2 by (auto simp: set_samplesOf)
  from win [OF m1] have k1: "k1 \<noteq> Instantaneous" by (auto simp: templateOf_inj)
  from win [OF m2] have k2: "k2 \<noteq> Instantaneous" by (auto simp: templateOf_inj)
  from lastWriter_exists [of "(tm, templateOf k1, s1)" ?xs "\<lambda>x. inputId x = ?key", OF m1]
  obtain tmL qtL sL where L: "lastWriter (\<lambda>x. inputId x = ?key) ?xs = Some (tmL, qtL, sL)"
    by (auto simp: inputId_def)
  from lastWriter_Some [OF L] have Lmem: "(tmL, qtL, sL) \<in> set ?xs" and Lid: "sampleId sL tmL = ?key"
    by (simp_all add: inputId_def)
  with alone have Leq: "label sL ''namespace'' = label s1 ''namespace''"
    "label sL ''pod'' = label s1 ''pod''" "tmL = tm"
    by auto
  from fold_tableStep_last_descriptive [OF L, of layout rng now Map.empty]
  obtain pm where pm: "?T ?key = Some pm" and d: "Namespace pm = label sL ''namespace''"
    "Pod pm = label sL ''pod''" "Metric pm = tmL" "LabelApp pm = label sL ''label_app''"
    by blast
  have lastv: "\<exists>tm' l. lastWriter (\<lambda>x. inputId x = ?key \<and> fst (snd x) = templateOf k) ?xs
                  = Some (tm', templateOf k, l) \<and> fieldOf k pm = Value l"
    if m: "(tm, templateOf k, s) \<in> set ?xs" and id: "sampleId s tm = ?key"
      and k: "k \<noteq> Instantaneous" for k s
  proof -
    let ?P = "\<lambda>x. inputId x = ?key \<and> fst (snd x) = templateOf k"
    from lastWriter_exists [of "(tm, templateOf k, s)" ?xs ?P, OF m] id
    obtain tm' qt' l where l: "lastWriter ?P ?xs = Some (tm', qt', l)"
      by (auto simp: inputId_def)
    from lastWriter_Some [OF l] have qt': "qt' = templateOf k" by simp
    have "\<exists>pm. ?T ?key = Some pm \<and> fieldOf k pm = Value l"
    proof (rule fold_tableStep_last_value)
      show "\<And>tm' qt' s'. (tm', qt', s') \<in> set ?xs \<Longrightarrow>
              \<exists>k'. k' \<noteq> Instantaneous \<and> qt' = templateOf k'"
        by (rule win)
      show "k \<noteq> Instantaneous" by (rule k)
      show "lastWriter ?P ?xs = Some (tm', qt', l)" by (rule l)
    qed
    with pm l qt' show ?thesis by auto
  qed
  from lastv [OF m1 refl k1] obtain tm1 l1 where
    v1: "lastWriter (\<lambda>x. inputId x = ?key \<and> fst (snd x) = templateOf k1) ?xs
           = Some (tm1, templateOf k1, l1)" "fieldOf k1 pm = Value l1"
    by blast
  from lastv [OF m2 ids k2] obtain tm2 l2 where
    v2: "lastWriter (\<lambda>x. inputId x = ?key \<and> fst (snd x) = templateOf k2) ?xs
           = Some (tm2, templateOf k2, l2)" "fieldOf k2 pm = Value l2"
    by blast
  note keyed = fold_tableStep_keyed [of layout rng now ?xs]
  from keyed [OF pm] have rt: "Range pm = rng" "QueryTime pm = layout now" by simp_all
  have rec: "\<exists>pm tmL qtL sL tm1 l1 tm2 l2.
          ?T ?key = Some pm
        \<and> Namespace pm = label s1 ''namespace'' \<and> Pod pm = label s1 ''pod'' \<and> Metric pm = tm
        \<and> Range pm = rng \<and> QueryTime pm = layout now
        \<and> lastWriter (\<lambda>x. inputId x = ?key) ?xs = Some (tmL, qtL, sL)
        \<and> LabelApp pm = label sL ''label_app''
        \<and> lastWriter (\<lambda>x. inputId x = ?key \<and> fst (snd x) = templateOf k1) ?xs
             = Some (tm1, templateOf k1, l1)
        \<and> fieldOf k1 pm = Value l1
        \<and> lastWriter (\<lambda>x. inputId x = ?key \<and> fst (snd x) = templateOf k2) ?xs
             = Some (tm2, templateOf k2, l2)
        \<and> fieldOf k2 pm = Value l2"
    using pm d Leq rt L v1 v2 by (intro exI [of _ pm] exI [of _ tmL] exI [of _ qtL] exI [of _ sL]
        exI [of _ tm1] exI [of _ l1] exI [of _ tm2] exI [of _ l2]) simp
  have single: "k = ?key"
    if "?T k = Some pm'" "Namespace pm' = label s1 ''namespace''" "Pod pm' = label s1 ''pod''"
      "Metric pm' = tm" for k pm'
    using keyed [OF that(1)] that(2-4) by (simp add: sampleId_def)
  show ?thesis
    unfolding tbl using ids rec single by blast
qed

theorem same_identity_one_record_witness:
  "\<exists>pm. snd (aggregate exampleLayout ''10m'' 1000 exampleInputs (New32a, Map.empty))
           (fingerprint ''default'' ''web-0'' cpuMetric) = Some pm
     \<and> Namespace pm = ''default'' \<and> Pod pm = ''web-0'' \<and> Metric pm = cpuMetric
     \<and> LabelApp pm = ''web''
     \<and> Q95Value pm = 0x4014000000000000 \<and> AvgValue pm = 0x401C000000000000
     \<and> Range pm = ''10m'' \<and> QueryTime pm = ''T''"
proof -
  let ?s1 = "podSample ''default'' ''web-0'' ''web'' 0x4014000000000000"
  let ?s2 = "podSample ''default'' ''web-0'' ''web'' 0x401C000000000000"
  let ?key = "sampleId ?s1 cpuMetric"
  have sel: "selectQueryTemplates [] = Inr (map templateOf [Quantile95, Average, Maximum, Minimum])"
    by (simp add: selectQueryTemplates_def)
  have ne: "quantileOverTimeTemplate \<noteq> avgOverTimeTemplate"
    by (simp add: template_defs)
  have xs: "samplesOf exampleInputs =
      [(cpuMetric, quantileOverTimeTemplate, ?s1), (cpuMetric, avgOverTimeTemplate, ?s2)]"
    by (simp add: samplesOf_def exampleInputs_def)
  have run: "\<forall>((tm', qt'), v') \<in> set exampleInputs.
      qt' \<in> set (map templateOf [Quantile95, Average, Maximum, Minimum])"
    by (simp add: exampleInputs_def)
  have in1: "((cpuMetric, templateOf Quantile95), [?s1]) \<in> set exampleInputs"
    and in2: "((cpuMetric, templateOf Average), [?s2]) \<in> set exampleInputs"
    by (simp_all add: exampleInputs_def)
  have mem: "?s1 \<in> set [?s1]" "?s2 \<in> set [?s2]" by simp_all
  have kinds: "Quantile95 \<noteq> Average" by simp
  have same: "label ?s1 ''namespace'' = label ?s2 ''namespace''"
    "label ?s1 ''pod'' = label ?s2 ''pod''"
    by (simp_all add: label_podSample)
  have alone: "\<forall>(tm', qt', s') \<in> set (samplesOf exampleInputs).
        sampleId s' tm' = ?key \<longrightarrow>
          label s' ''namespace'' = label ?s1 ''namespace'' \<and> label s' ''pod'' = label ?s1 ''pod''
          \<and> tm' = cpuMetric"
    by (simp add: xs label_podSample)
  have L: "lastWriter (\<lambda>x. inputId x = ?key) (samplesOf exampleInputs)
             = Some (cpuMetric, avgOverTimeTemplate, ?s2)"
    "lastWriter (\<lambda>x. inputId x = ?key \<and> fst (snd x) = templateOf Quantile95)
        (samplesOf exampleInputs) = Some (cpuMetric, quantileOverTimeTemplate, ?s1)"
    "lastWriter (\<lambda>x. inputId x = ?key \<and> fst (snd x) = templateOf Average)
        (samplesOf exampleInputs) = Some (cpuMetric, avgOverTimeTemplate, ?s2)"
    using ne by (simp_all add: xs lastWriter_def inputId_def sampleId_podSample)
  from same_identity_one_record [OF sel run in1 mem(1) in2 mem(2) kinds same alone,
      of exampleLayout "''10m''" 1000]
  show ?thesis
    unfolding L by (auto simp: sampleId_podSample label_podSample exampleLayout_def)
qed

text \<open>
  C2 as stated fails when a sample of another identity has the same fingerprint. The
  quantile vector holds the pod \<^verbatim>\<open>web-0\<close> of the namespace \<^verbatim>\<open>costarring\<close> with 5.0;
  the average vector holds it with 7.0, and then the pod \<^verbatim>\<open>web-0\<close> of the namespace
  \<^verbatim>\<open>liquid\<close>, with the label \<^verbatim>\<open>other\<close> and 9.0. Both templates are in the default
  selection. The record under the fingerprint of the two \<^verbatim>\<open>costarring\<close> samples has the
  namespace \<^verbatim>\<open>liquid\<close>, the label \<^verbatim>\<open>other\<close> and the average 9.0.
\<close>

theorem colliding_sample_overwrites_record:
  "snd (aggregate exampleLayout ''10m'' 1000
     [((cpuMetric, quantileOverTimeTemplate),
        [podSample ''costarring'' ''web-0'' ''web'' 0x4014000000000000]),
      ((cpuMetric, avgOverTimeTemplate),
        [podSample ''costarring'' ''web-0'' ''web'' 0x401C000000000000,
         podSample ''liquid'' ''web-0'' ''other'' 0x4022000000000000])]
     (New32a, Map.empty))
     (sampleId (podSample ''costarring'' ''web-0'' ''web'' 0x4014000000000000) cpuMetric)
   = Some \<lparr>Metric = cpuMetric, Range = ''10m'', Pod = ''web-0'', Namespace = ''liquid'',
            LabelApp = ''other'', QueryTime = ''T'', Q95Value = 0x4014000000000000,
            MaxValue = 0, MinValue = 0, AvgValue = 0x4022000000000000, InstValue = 0\<rparr>
   \<and> selectQueryTemplates [] =
       Inr [quantileOverTimeTemplate, avgOverTimeTemplate, maxOverTimeTemplate, minOverTimeTemplate]"
  by (simp add: aggregate_New32a samplesOf_def tableStep_def fill_def inputId_def
        sampleId_podSample label_podSample fingerprint_collision storeValue_templates
        newPodMetric_def exampleLayout_def selectQueryTemplates_def)

subsection \<open>Fingerprints\<close>

text \<open>
  C3, as amended. Two samples of a stream whose fingerprints differ have two distinct
  records in the table, each under its own fingerprint and each with descriptive
  fields that hash to it.
\<close>

theorem differing_fingerprints_distinct_records:
  assumes in1: "((tm1, qt1), v1) \<in> set inputs" "s1 \<in> set v1"
    and in2: "((tm2, qt2), v2) \<in> set inputs" "s2 \<in> set v2"
    and ne: "sampleId s1 tm1 \<noteq> sampleId s2 tm2"
  shows "\<exists>pm1 pm2.
           snd (aggregate layout rng now inputs (New32a, Map.empty)) (sampleId s1 tm1) = Some pm1
         \<and> snd (aggregate layout rng now inputs (New32a, Map.empty)) (sampleId s2 tm2) = Some pm2
         \<and> pm1 \<noteq> pm2
         \<and> fingerprint (Namespace pm1) (Pod pm1) (Metric pm1) = sampleId s1 tm1
         \<and> fingerprint (Namespace pm2) (Pod pm2) (Metric pm2) = sampleId s2 tm2"
proof -
  let ?xs = "samplesOf inputs"
  let ?T = "fold (tableStep layout rng now) ?xs Map.empty"
  have tbl: "snd (aggregate layout rng now inputs (New32a, Map.empty)) = ?T"
    by (simp add: aggregate_New32a)
  have m1: "(tm1, qt1, s1) \<in> set ?xs" using in1 by (auto simp: set_samplesOf)
  have m2: "(tm2, qt2, s2) \<in> set ?xs" using in2 by (auto simp: set_samplesOf)
  from fold_tableStep_defined [OF m1, of layout rng now Map.empty]
  obtain pm1 where pm1: "?T (sampleId s1 tm1) = Some pm1" by (auto simp: inputId_def)
  from fold_tableStep_defined [OF m2, of layout rng now Map.empty]
  obtain pm2 where pm2: "?T (sampleId s2 tm2) = Some pm2" by (auto simp: inputId_def)
  have k1: "fingerprint (Namespace pm1) (Pod pm1) (Metric pm1) = sampleId s1 tm1"
    using fold_tableStep_keyed [OF pm1] by simp
  have k2: "fingerprint (Namespace pm2) (Pod pm2) (Metric pm2) = sampleId s2 tm2"
    using fold_tableStep_keyed [OF pm2] by simp
  from k1 k2 ne have "pm1 \<noteq> pm2" by auto
  with pm1 pm2 k1 k2 show ?thesis unfolding tbl by blast
qed

theorem differing_fingerprints_distinct_records_witness:
  "\<exists>pm1 pm2.
      snd (aggregate exampleLayout ''10m'' 1000
             [((cpuMetric, quantileOverTimeTemplate), [exampleSample]),
              ((memoryMetric, quantileOverTimeTemplate), [exampleSample])] (New32a, Map.empty))
        743081908 = Some pm1
    \<and> snd (aggregate exampleLayout ''10m'' 1000
             [((cpuMetric, quantileOverTimeTemplate), [exampleSample]),
              ((memoryMetric, quantileOverTimeTemplate), [exampleSample])] (New32a, Map.empty))
        1345253740 = Some pm2
    \<and> pm1 \<noteq> pm2"
proof -
  have ids: "sampleId exampleSample cpuMetric = 743081908"
    "sampleId exampleSample memoryMetric = 1345253740"
    by (simp_all add: sampleId_def label_def exampleSample_def fingerprint_web0)
  show ?thesis
    using differing_fingerprints_distinct_records [of cpuMetric quantileOverTimeTemplate
      "[exampleSample]" "[((cpuMetric, quantileOverTimeTemplate), [exampleSample]),
              ((memoryMetric, quantileOverTimeTemplate), [exampleSample])]" exampleSample
      memoryMetric quantileOverTimeTemplate "[exampleSample]" exampleSample
      exampleLayout "''10m''" 1000]
    by (simp add: ids) blast
qed

text \<open>
  C3 as stated fails: the namespaces \<^verbatim>\<open>costarring\<close> and \<^verbatim>\<open>liquid\<close> have the same
  32-bit FNV-1a hash, so two pods that differ in their namespace alone get one
  fingerprint and the table holds a single record for both. So do two pods whose
  namespace and pod name put the separating hyphen at different places of one string.
\<close>

theorem distinct_namespaces_share_a_record:
  "label (podSample ''costarring'' ''web-0'' ''web'' 0x4014000000000000) ''namespace''
     \<noteq> label (podSample ''liquid'' ''web-0'' ''web'' 0x401C000000000000) ''namespace''
   \<and> sampleId (podSample ''costarring'' ''web-0'' ''web'' 0x4014000000000000) cpuMetric
       = sampleId (podSample ''liquid'' ''web-0'' ''web'' 0x401C000000000000) cpuMetric
   \<and> dom (snd (aggregate exampleLayout ''10m'' 1000
        [((cpuMetric, quantileOverTimeTemplate),
          [podSample ''costarring'' ''web-0'' ''web'' 0x4014000000000000,
           podSample ''liquid'' ''web-0'' ''web'' 0x401C000000000000])]
        (New32a, Map.empty)))
       = {fingerprint ''liquid'' ''web-0'' cpuMetric}
   \<and> fingerprint ''team-a'' ''web-0'' cpuMetric = fingerprint ''team'' ''a-web-0'' cpuMetric"
proof -
  have "fingerprint ''team-a'' ''web-0'' cpuMetric = fingerprint ''team'' ''a-web-0'' cpuMetric"
    by (simp add: fingerprint_def)
  then show ?thesis
    by (simp add: aggregate_New32a samplesOf_def tableStep_def inputId_def sampleId_podSample
        label_podSample fingerprint_collision)
qed

subsection \<open>The loops of a run\<close>

lemma Query_calls:
  "calls (snd (Query cfg w query ts)) = calls w @ [(query, ts, fst (Query cfg w query ts))]"
  "clock (snd (Query cfg w query ts)) = clock w"
  "reads (snd (Query cfg w query ts)) = reads w"
  by (simp_all add: Query_def split: prod.split)

lemma queryStep_composed:
  assumes "composeQuery lbl (Config.Range cfg) tm qt = Inr query"
  shows "queryStep layout cfg lbl now tm qt (w, loc) =
     (snd (Query cfg w query now),
      if isVector (fst (Query cfg w query now))
      then Inr (foldVector layout (Config.Range cfg) now tm qt
                  (vectorOf (fst (Query cfg w query now))) loc)
      else Inl (failure query (fst (Query cfg w query now))))"
proof -
  obtain queryValue warnings err w' where q: "Query cfg w query now = ((queryValue, warnings, err), w')"
    by (metis surj_pair)
  show ?thesis
    by (cases err; cases queryValue) (simp_all add: queryStep_def assms q)
qed

lemma pairLoop_append:
  "pairLoop layout cfg lbl now (ps @ ps') (w, loc) =
     (case pairLoop layout cfg lbl now ps (w, loc) of
        (w', Inl e) \<Rightarrow> (w', Inl e)
      | (w', Inr loc') \<Rightarrow> pairLoop layout cfg lbl now ps' (w', loc'))"
proof (induction ps arbitrary: w loc)
  case Nil
  show ?case by simp
next
  case (Cons p ps)
  obtain tm qt where p: "p = (tm, qt)" by (cases p)
  obtain w1 r where s: "queryStep layout cfg lbl now tm qt (w, loc) = (w1, r)" by (metis surj_pair)
  show ?case
    by (cases r) (simp_all add: p s Cons.IH)
qed

lemma templateLoop_pairLoop:
  "templateLoop layout cfg lbl now tm qts (w, loc) =
     pairLoop layout cfg lbl now (map (Pair tm) qts) (w, loc)"
proof (induction qts arbitrary: w loc)
  case Nil
  show ?case by simp
next
  case (Cons qt qts)
  obtain w1 r where s: "queryStep layout cfg lbl now tm qt (w, loc) = (w1, r)" by (metis surj_pair)
  show ?case
    by (cases r) (simp_all add: s Cons.IH)
qed

lemma metricLoop_pairLoop:
  "metricLoop layout cfg lbl now tms qts (w, loc) =
     pairLoop layout cfg lbl now (List.product tms qts) (w, loc)"
proof (induction tms arbitrary: w loc)
  case Nil
  show ?case by simp
next
  case (Cons tm tms)
  obtain w1 r where s: "pairLoop layout cfg lbl now (map (Pair tm) qts) (w, loc) = (w1, r)"
    by (metis surj_pair)
  show ?case
    by (cases r) (simp_all add: templateLoop_pairLoop pairLoop_append s Cons.IH)
qed

lemma pairLoop_trace:
  assumes comp: "list_all2 (\<lambda>(tm, qt) query. composeQuery lbl (Config.Range cfg) tm qt = Inr query) ps qs"
    and run: "pairLoop layout cfg lbl now ps (w, loc) = (w', res)"
  shows "\<exists>cs. calls w' = calls w @ cs \<and> clock w' = clock w \<and> reads w' = reads w
      \<and> length cs \<le> length ps
      \<and> map fst cs = take (length cs) qs
      \<and> (\<forall>c \<in> set cs. fst (snd c) = now)
      \<and> (case res of
           Inr loc' \<Rightarrow> length cs = length ps \<and> (\<forall>c \<in> set cs. isVector (snd (snd c)))
              \<and> loc' = aggregate layout (Config.Range cfg) now
                         (zip ps (map (\<lambda>c. vectorOf (snd (snd c))) cs)) loc
         | Inl e \<Rightarrow> cs \<noteq> [] \<and> \<not> isVector (snd (snd (last cs)))
              \<and> e = failure (fst (last cs)) (snd (snd (last cs)))
              \<and> (\<forall>c \<in> set (butlast cs). isVector (snd (snd c))))"
  using comp run
proof (induction ps qs arbitrary: w loc rule: list_all2_induct)
  case Nil
  then show ?case by (auto simp: aggregate_def)
next
  case (Cons p ps query qs)
  obtain tm qt where p: "p = (tm, qt)" by (cases p)
  from Cons.hyps(1) have c: "composeQuery lbl (Config.Range cfg) tm qt = Inr query"
    by (simp add: p)
  let ?resp = "fst (Query cfg w query now)"
  let ?w1 = "snd (Query cfg w query now)"
  let ?c = "(query, now, ?resp)"
  show ?case
  proof (cases "isVector ?resp")
    case False
    with Cons.prems have "w' = ?w1" "res = Inl (failure query ?resp)"
      by (simp_all add: p queryStep_composed [OF c])
    with False show ?thesis
      by (intro exI [of _ "[?c]"]) (simp add: Query_calls)
  next
    case True
    let ?loc1 = "foldVector layout (Config.Range cfg) now tm qt (vectorOf ?resp) loc"
    from True Cons.prems have "pairLoop layout cfg lbl now ps (?w1, ?loc1) = (w', res)"
      by (simp add: p queryStep_composed [OF c])
    from Cons.IH [OF this] obtain cs where cs:
      "calls w' = calls ?w1 @ cs" "clock w' = clock ?w1" "reads w' = reads ?w1"
      "length cs \<le> length ps" "map fst cs = take (length cs) qs"
      "\<forall>c \<in> set cs. fst (snd c) = now"
      "case res of
           Inr loc' \<Rightarrow> length cs = length ps \<and> (\<forall>c \<in> set cs. isVector (snd (snd c)))
              \<and> loc' = aggregate layout (Config.Range cfg) now
                         (zip ps (map (\<lambda>c. vectorOf (snd (snd c))) cs)) ?loc1
         | Inl e \<Rightarrow> cs \<noteq> [] \<and> \<not> isVector (snd (snd (last cs)))
              \<and> e = failure (fst (last cs)) (snd (snd (last cs)))
              \<and> (\<forall>c \<in> set (butlast cs). isVector (snd (snd c)))"
      by blast
    have "case res of
           Inr loc' \<Rightarrow> length (?c # cs) = length (p # ps)
              \<and> (\<forall>c \<in> set (?c # cs). isVector (snd (snd c)))
              \<and> loc' = aggregate layout (Config.Range cfg) now
                         (zip (p # ps) (map (\<lambda>c. vectorOf (snd (snd c))) (?c # cs))) loc
         | Inl e \<Rightarrow> ?c # cs \<noteq> [] \<and> \<not> isVector (snd (snd (last (?c # cs))))
              \<and> e = failure (fst (last (?c # cs))) (snd (snd (last (?c # cs))))
              \<and> (\<forall>c \<in> set (butlast (?c # cs)). isVector (snd (snd c)))"
      using cs(7) True by (cases res) (auto simp: p aggregate_def)
    with cs(1-6) show ?thesis
      by (intro exI [of _ "?c # cs"]) (simp add: Query_calls)
  qed
qed

lemma composed_all:
  "list_all2 (\<lambda>(tm, qt) query. composeQuery appLabelsTmp rng tm qt = Inr query)
     (List.product tms (map templateOf ks))
     (concat (map (\<lambda>tm. map (\<lambda>k. labelJoin (rendered k tm rng)) ks) tms))"
proof (induction tms)
  case Nil
  show ?case by simp
next
  case (Cons tm tms)
  have "list_all2 (\<lambda>(tm, qt) query. composeQuery appLabelsTmp rng tm qt = Inr query)
     (map (Pair tm) (map templateOf ks)) (map (\<lambda>k. labelJoin (rendered k tm rng)) ks)"
    by (simp add: list_all2_map1 list_all2_map2 list_all2_same composeQuery_templateOf)
  with Cons.IH show ?case
    by (simp add: list_all2_appendI)
qed

lemma length_composedQueries:
  "length (composedQueries rng ks) = length targetMetrics * length ks"
  by (simp add: composedQueries_def targetMetrics_def)

lemma selection_kinds:
  "\<exists>ks. ks \<noteq> [] \<and> selectQueryTemplates q = Inr (map templateOf ks)"
proof -
  have "selectQueryTemplates q = Inr (map templateOf [Quantile95])
      \<or> selectQueryTemplates q = Inr (map templateOf [Average])
      \<or> selectQueryTemplates q = Inr (map templateOf [Instantaneous])
      \<or> selectQueryTemplates q = Inr (map templateOf [Quantile95, Average, Maximum, Minimum])"
    by (simp add: selectQueryTemplates_def)
  then show ?thesis by (elim disjE) (rule exI, rule conjI [rotated], assumption, simp)+
qed

lemma top_unfold:
  assumes sel: "selectQueryTemplates (QueryType cfg) = Inr (map templateOf ks)"
  shows "top layout cfg w =
     (case pairLoop layout cfg appLabelsTmp (clock w (reads w))
             (List.product targetMetrics (map templateOf ks))
             (w\<lparr>reads := Suc (reads w)\<rparr>, New32a, Map.empty) of
        (w', Inl e) \<Rightarrow> (w', Inl e)
      | (w', Inr (hash, tbl)) \<Rightarrow> (w', Inr tbl))"
  by (simp add: top_def Now_def sel Parse_appLabelQuery metricLoop_pairLoop)

lemma top_trace:
  assumes run: "top layout cfg w = (w', res)"
    and sel: "selectQueryTemplates (QueryType cfg) = Inr (map templateOf ks)"
  shows "calls w' = calls w @ issued w w' \<and> clock w' = clock w \<and> reads w' = Suc (reads w)
      \<and> length (issued w w') \<le> length targetMetrics * length ks
      \<and> map fst (issued w w') = take (length (issued w w')) (composedQueries (Config.Range cfg) ks)
      \<and> (\<forall>c \<in> set (issued w w'). fst (snd c) = clock w (reads w))
      \<and> (case res of
           Inr tbl \<Rightarrow> length (issued w w') = length targetMetrics * length ks
              \<and> (\<forall>c \<in> set (issued w w'). isVector (snd (snd c)))
              \<and> tbl = snd (aggregate layout (Config.Range cfg) (clock w (reads w))
                         (zip (List.product targetMetrics (map templateOf ks))
                            (map (\<lambda>c. vectorOf (snd (snd c))) (issued w w')))
                         (New32a, Map.empty))
         | Inl e \<Rightarrow> issued w w' \<noteq> [] \<and> \<not> isVector (snd (snd (last (issued w w'))))
              \<and> e = failure (fst (last (issued w w'))) (snd (snd (last (issued w w'))))
              \<and> (\<forall>c \<in> set (butlast (issued w w')). isVector (snd (snd c))))"
proof -
  let ?now = "clock w (reads w)"
  let ?w0 = "w\<lparr>reads := Suc (reads w)\<rparr>"
  let ?ps = "List.product targetMetrics (map templateOf ks)"
  obtain r where loop: "pairLoop layout cfg appLabelsTmp ?now ?ps (?w0, New32a, Map.empty) = (w', r)"
    and res: "res = (case r of Inl e \<Rightarrow> Inl e | Inr (hash, tbl) \<Rightarrow> Inr tbl)"
    using run unfolding top_unfold [OF sel]
    by (auto split: prod.splits sum.splits)
  have comp: "list_all2 (\<lambda>(tm, qt) query. composeQuery appLabelsTmp (Config.Range cfg) tm qt = Inr query)
     ?ps (composedQueries (Config.Range cfg) ks)"
    unfolding composedQueries_def by (rule composed_all)
  from pairLoop_trace [OF comp loop] obtain cs where cs:
      "calls w' = calls ?w0 @ cs" "clock w' = clock ?w0" "reads w' = reads ?w0"
      "length cs \<le> length ?ps" "map fst cs = take (length cs) (composedQueries (Config.Range cfg) ks)"
      "\<forall>c \<in> set cs. fst (snd c) = ?now"
      "case r of
           Inr loc' \<Rightarrow> length cs = length ?ps \<and> (\<forall>c \<in> set cs. isVector (snd (snd c)))
              \<and> loc' = aggregate layout (Config.Range cfg) ?now
                         (zip ?ps (map (\<lambda>c. vectorOf (snd (snd c))) cs)) (New32a, Map.empty)
         | Inl e \<Rightarrow> cs \<noteq> [] \<and> \<not> isVector (snd (snd (last cs)))
              \<and> e = failure (fst (last cs)) (snd (snd (last cs)))
              \<and> (\<forall>c \<in> set (butlast cs). isVector (snd (snd c)))"
    by blast
  have iss: "issued w w' = cs" using cs(1) by (simp add: issued_def)
  have len: "length ?ps = length targetMetrics * length ks" by simp
  have "case res of
           Inr tbl \<Rightarrow> length cs = length targetMetrics * length ks
              \<and> (\<forall>c \<in> set cs. isVector (snd (snd c)))
              \<and> tbl = snd (aggregate layout (Config.Range cfg) ?now
                         (zip ?ps (map (\<lambda>c. vectorOf (snd (snd c))) cs)) (New32a, Map.empty))
         | Inl e \<Rightarrow> cs \<noteq> [] \<and> \<not> isVector (snd (snd (last cs)))
              \<and> e = failure (fst (last cs)) (snd (snd (last cs)))
              \<and> (\<forall>c \<in> set (butlast cs). isVector (snd (snd c)))"
    using cs(7) len unfolding res by (cases r) (auto split: prod.splits)
  with cs(1-6) len show ?thesis unfolding iss by simp
qed

lemma failing_run:
  "top exampleLayout (exampleConfig [] failingClient) exampleWorld =
     (exampleWorld\<lparr>reads := 1,
        calls := [(labelJoin (rendered Quantile95 cpuMetric ''10m''), 1000,
                   NoValue, [], Some ''connection refused'')]\<rparr>,
      Inl (QueryFailed (labelJoin (rendered Quantile95 cpuMetric ''10m'')) ''connection refused''))"
  by (simp add: top_def Now_def exampleWorld_def exampleConfig_def failingClient_def
     selectQueryTemplates_def Parse_appLabelQuery targetMetrics_def queryStep_def Query_def
     composeQuery_templateOf [of _ _ Quantile95, simplified])

lemma scalar_run:
  "top exampleLayout (exampleConfig ''i'' scalarClient) exampleWorld =
     (exampleWorld\<lparr>reads := 1,
        calls := [(labelJoin cpuMetric, 1000, Scalar 0x4014000000000000, [], None)]\<rparr>,
      Inl ExpectedVector)"
  by (simp add: top_def Now_def exampleWorld_def exampleConfig_def scalarClient_def
     selectQueryTemplates_def Parse_appLabelQuery targetMetrics_def queryStep_def Query_def
     composeQuery_templateOf [of _ _ Instantaneous, simplified])

lemma flaky_run:
  "top exampleLayout (flakyConfig ''i'') flakyWorld =
     (flakyWorld\<lparr>reads := 1, backend := 2,
        calls := [(labelJoin cpuMetric, 1000, Vector [exampleSample], [], None),
                  (labelJoin memoryMetric, 1000, NoValue, [], Some ''connection refused'')]\<rparr>,
      Inl (QueryFailed (labelJoin memoryMetric) ''connection refused''))"
  by (simp add: top_def Now_def flakyWorld_def flakyConfig_def flakyClient_def
     selectQueryTemplates_def Parse_appLabelQuery targetMetrics_def queryStep_def Query_def
     composeQuery_templateOf [of _ _ Instantaneous, simplified] foldVector_def)

lemma calls_exampleWorld: "calls exampleWorld = []" "calls flakyWorld = []"
  by (simp_all add: exampleWorld_def flakyWorld_def)

text \<open>
  C5, as amended. The selection of a run is a list \<open>ks\<close> of template kinds, and
  \<open>composedQueries\<close> lists one query for each pair of a target metric and a kind, metrics
  first: the kind's template with the metric and the range in it, inside one label-join
  transform. The list has (number of metrics) times (number of kinds) entries. The
  queries that a run issues are a prefix of this list, in this order, and a run that
  returns a table has issued all of them.
\<close>

theorem composed_queries_of_a_run:
  assumes run: "top layout cfg w = (w', res)"
  shows "\<exists>ks. selectQueryTemplates (QueryType cfg) = Inr (map templateOf ks)
      \<and> length (composedQueries (Config.Range cfg) ks) = length targetMetrics * length ks
      \<and> map fst (issued w w') = take (length (issued w w')) (composedQueries (Config.Range cfg) ks)
      \<and> (\<forall>tbl. res = Inr tbl \<longrightarrow> map fst (issued w w') = composedQueries (Config.Range cfg) ks)"
proof -
  from selection_kinds obtain ks where
    sel: "selectQueryTemplates (QueryType cfg) = Inr (map templateOf ks)" by blast
  note t = top_trace [OF run sel]
  have full: "map fst (issued w w') = composedQueries (Config.Range cfg) ks" if "res = Inr tbl" for tbl
  proof -
    from t that have "length (issued w w') = length (composedQueries (Config.Range cfg) ks)"
      by (simp add: length_composedQueries)
    with t show ?thesis by simp
  qed
  from sel t full show ?thesis
    by (intro exI [of _ ks]) (simp add: length_composedQueries)
qed

theorem composed_queries_of_a_run_witness:
  "\<exists>ks. selectQueryTemplates ''i'' = Inr (map templateOf ks)
      \<and> map fst (issued exampleWorld
           (fst (top exampleLayout (exampleConfig ''i'' exampleClient) exampleWorld)))
          = take (length (issued exampleWorld
           (fst (top exampleLayout (exampleConfig ''i'' exampleClient) exampleWorld))))
             (composedQueries ''10m'' ks)"
  using composed_queries_of_a_run [of exampleLayout "exampleConfig ''i'' exampleClient" exampleWorld
    "fst (top exampleLayout (exampleConfig ''i'' exampleClient) exampleWorld)"
    "snd (top exampleLayout (exampleConfig ''i'' exampleClient) exampleWorld)"]
  by (auto simp: exampleConfig_def)

text \<open>
  C5 as stated fails: the queries are composed one at a time, each right before it is
  executed. With the default selection (two metrics, four kinds) and a backend that
  refuses the first query, the run has composed one query, not eight.
\<close>

theorem failed_run_composes_one_query:
  "selectQueryTemplates [] = Inr (map templateOf [Quantile95, Average, Maximum, Minimum])
   \<and> length targetMetrics * length [Quantile95, Average, Maximum, Minimum] = 8
   \<and> map fst (issued exampleWorld
                (fst (top exampleLayout (exampleConfig [] failingClient) exampleWorld)))
       = [labelJoin (rendered Quantile95 cpuMetric ''10m'')]"
  by (simp add: failing_run issued_def calls_exampleWorld selectQueryTemplates_def targetMetrics_def)

text \<open>
  C6. If one of the calls of a run returned an error, or a value that is not a vector,
  the run returns the error of that call and no table; the call is the last one that
  the run made.
\<close>

theorem failed_query_fails_run:
  assumes run: "top layout cfg w = (w', res)"
    and call: "(query, ts, resp) \<in> set (issued w w')"
    and bad: "\<not> isVector resp"
  shows "res = Inl (failure query resp) \<and> last (issued w w') = (query, ts, resp)"
proof -
  from selection_kinds obtain ks where
    sel: "selectQueryTemplates (QueryType cfg) = Inr (map templateOf ks)" by blast
  note t = top_trace [OF run sel]
  let ?cs = "issued w w'"
  show ?thesis
  proof (cases res)
    case (Inr tbl)
    with t have "\<forall>c \<in> set ?cs. isVector (snd (snd c))" by simp
    with call bad show ?thesis by auto
  next
    case (Inl e)
    with t have ne: "?cs \<noteq> []" and e: "e = failure (fst (last ?cs)) (snd (snd (last ?cs)))"
      and front: "\<forall>c \<in> set (butlast ?cs). isVector (snd (snd c))"
      by simp_all
    from ne obtain ys y where ys: "?cs = ys @ [y]" by (cases ?cs rule: rev_cases) auto
    with call front bad have "last ?cs = (query, ts, resp)" by auto
    with e Inl show ?thesis by simp
  qed
qed

theorem failed_query_fails_run_witness:
  "snd (top exampleLayout (exampleConfig [] failingClient) exampleWorld)
     = Inl (QueryFailed (labelJoin (rendered Quantile95 cpuMetric ''10m'')) ''connection refused'')
   \<and> snd (top exampleLayout (exampleConfig ''i'' scalarClient) exampleWorld) = Inl ExpectedVector
   \<and> snd (top exampleLayout (flakyConfig ''i'') flakyWorld)
     = Inl (QueryFailed (labelJoin memoryMetric) ''connection refused'')"
proof -
  have 1: "(labelJoin (rendered Quantile95 cpuMetric ''10m''), 1000, NoValue, [], Some ''connection refused'')
      \<in> set (issued exampleWorld (fst (top exampleLayout (exampleConfig [] failingClient) exampleWorld)))"
    by (simp add: failing_run issued_def calls_exampleWorld)
  have 2: "(labelJoin cpuMetric, 1000, Scalar 0x4014000000000000, [], None)
      \<in> set (issued exampleWorld (fst (top exampleLayout (exampleConfig ''i'' scalarClient) exampleWorld)))"
    by (simp add: scalar_run issued_def calls_exampleWorld)
  have 3: "(labelJoin memoryMetric, 1000, NoValue, [], Some ''connection refused'')
      \<in> set (issued flakyWorld (fst (top exampleLayout (flakyConfig ''i'') flakyWorld)))"
    by (simp add: flaky_run issued_def calls_exampleWorld)
  show ?thesis
    using failed_query_fails_run [OF prod.collapse [symmetric] 1]
      failed_query_fails_run [OF prod.collapse [symmetric] 2]
      failed_query_fails_run [OF prod.collapse [symmetric] 3]
    by simp
qed

text \<open>
  C7. A run reads the clock once; the calls it adds to the log all carry the reading
  taken in the initial state of the world, before any of them is made, and every record
  of a returned table has this reading, formatted, as its query time.
\<close>

theorem one_evaluation_time:
  assumes run: "top layout cfg w = (w', res)"
  shows "reads w' = Suc (reads w) \<and> clock w' = clock w
     \<and> calls w' = calls w @ issued w w'
     \<and> (\<forall>(query, ts, resp) \<in> set (issued w w'). ts = clock w (reads w))
     \<and> (\<forall>tbl pm. res = Inr tbl \<and> pm \<in> ran tbl \<longrightarrow> QueryTime pm = layout (clock w (reads w)))"
proof -
  from selection_kinds obtain ks where
    sel: "selectQueryTemplates (QueryType cfg) = Inr (map templateOf ks)" by blast
  note t = top_trace [OF run sel]
  have time: "QueryTime pm = layout (clock w (reads w))" if "res = Inr tbl" "pm \<in> ran tbl" for tbl pm
  proof -
    from that(2) obtain k where k: "tbl k = Some pm" by (auto simp: ran_def)
    from t that(1) have "tbl = snd (aggregate layout (Config.Range cfg) (clock w (reads w))
                         (zip (List.product targetMetrics (map templateOf ks))
                            (map (\<lambda>c. vectorOf (snd (snd c))) (issued w w')))
                         (New32a, Map.empty))"
      by simp
    with k have "fold (tableStep layout (Config.Range cfg) (clock w (reads w)))
        (samplesOf (zip (List.product targetMetrics (map templateOf ks))
                            (map (\<lambda>c. vectorOf (snd (snd c))) (issued w w')))) Map.empty k = Some pm"
      by (simp add: aggregate_New32a)
    from fold_tableStep_keyed [OF this] show ?thesis by simp
  qed
  from t have "\<forall>(query, ts, resp) \<in> set (issued w w'). ts = clock w (reads w)"
    by auto
  with t time show ?thesis by blast
qed

theorem one_evaluation_time_witness:
  "reads (fst (top exampleLayout (exampleConfig ''i'' exampleClient) exampleWorld)) = 1
   \<and> clock (fst (top exampleLayout (exampleConfig ''i'' exampleClient) exampleWorld)) = clock exampleWorld"
  using one_evaluation_time [OF prod.collapse [symmetric],
      of exampleLayout "exampleConfig ''i'' exampleClient" exampleWorld]
  by (simp add: exampleWorld_def)

lemma queryStep_warnings:
  assumes agree: "\<And>b ctx query ts. dropWarnings (client1 b ctx query ts) = dropWarnings (client2 b ctx query ts)"
    and b: "backend w1 = backend w2"
  shows "snd (queryStep layout (cfg\<lparr>PrometheusClient := client1\<rparr>) lbl now tm qt (w1, loc))
       = snd (queryStep layout (cfg\<lparr>PrometheusClient := client2\<rparr>) lbl now tm qt (w2, loc))
     \<and> backend (fst (queryStep layout (cfg\<lparr>PrometheusClient := client1\<rparr>) lbl now tm qt (w1, loc)))
       = backend (fst (queryStep layout (cfg\<lparr>PrometheusClient := client2\<rparr>) lbl now tm qt (w2, loc)))"
proof (cases "composeQuery lbl (Config.Range cfg) tm qt")
  case (Inl e)
  then show ?thesis by (simp add: queryStep_def b)
next
  case (Inr query)
  obtain v1 ws1 e1 b1 where c1: "client1 (backend w2) (Context cfg) query now = ((v1, ws1, e1), b1)"
    by (metis surj_pair)
  obtain v2 ws2 e2 b2 where c2: "client2 (backend w2) (Context cfg) query now = ((v2, ws2, e2), b2)"
    by (metis surj_pair)
  from agree [of "backend w2" "Context cfg" query now]
  have eq: "v1 = v2" "e1 = e2" "b1 = b2"
    by (simp_all add: dropWarnings_def c1 c2)
  show ?thesis
    by (cases e2; cases v2) (simp_all add: queryStep_def Inr Query_def b c1 c2 eq)
qed

lemma pairLoop_warnings:
  assumes agree: "\<And>b ctx query ts. dropWarnings (client1 b ctx query ts) = dropWarnings (client2 b ctx query ts)"
  shows "backend w1 = backend w2 \<Longrightarrow>
     snd (pairLoop layout (cfg\<lparr>PrometheusClient := client1\<rparr>) lbl now ps (w1, loc))
       = snd (pairLoop layout (cfg\<lparr>PrometheusClient := client2\<rparr>) lbl now ps (w2, loc))
     \<and> backend (fst (pairLoop layout (cfg\<lparr>PrometheusClient := client1\<rparr>) lbl now ps (w1, loc)))
       = backend (fst (pairLoop layout (cfg\<lparr>PrometheusClient := client2\<rparr>) lbl now ps (w2, loc)))"
proof (induction ps arbitrary: w1 w2 loc)
  case Nil
  then show ?case by simp
next
  case (Cons p ps)
  obtain tm qt where p: "p = (tm, qt)" by (cases p)
  obtain u1 r1 where s1: "queryStep layout (cfg\<lparr>PrometheusClient := client1\<rparr>) lbl now tm qt (w1, loc) = (u1, r1)"
    by (metis surj_pair)
  obtain u2 r2 where s2: "queryStep layout (cfg\<lparr>PrometheusClient := client2\<rparr>) lbl now tm qt (w2, loc) = (u2, r2)"
    by (metis surj_pair)
  from queryStep_warnings [of client1 client2 w1 w2 layout cfg lbl now tm qt loc, OF agree Cons.prems]
  have r: "r1 = r2" and u: "backend u1 = backend u2"
    by (simp_all add: s1 s2)
  show ?case
  proof (cases r2)
    case (Inl e)
    with r u show ?thesis by (simp add: p s1 s2)
  next
    case (Inr loc')
    with r Cons.IH [OF u, of loc'] show ?thesis by (simp add: p s1 s2)
  qed
qed

text \<open>
  C10. Two clients that return the same values, errors and backend states, and differ at
  most in their warnings, give the same result (the same table or the same error) and
  leave the backend in the same state.
\<close>

theorem warnings_do_not_matter:
  assumes agree: "\<forall>b ctx query ts. dropWarnings (client1 b ctx query ts) = dropWarnings (client2 b ctx query ts)"
  shows "snd (top layout (cfg\<lparr>PrometheusClient := client1\<rparr>) w)
       = snd (top layout (cfg\<lparr>PrometheusClient := client2\<rparr>) w)
     \<and> backend (fst (top layout (cfg\<lparr>PrometheusClient := client1\<rparr>) w))
       = backend (fst (top layout (cfg\<lparr>PrometheusClient := client2\<rparr>) w))"
proof -
  from selection_kinds obtain ks where
    sel: "selectQueryTemplates (QueryType cfg) = Inr (map templateOf ks)" by blast
  let ?w0 = "w\<lparr>reads := Suc (reads w)\<rparr>"
  let ?ps = "List.product targetMetrics (map templateOf ks)"
  let ?run = "\<lambda>client. pairLoop layout (cfg\<lparr>PrometheusClient := client\<rparr>) appLabelsTmp
                 (clock w (reads w)) ?ps (?w0, New32a, Map.empty)"
  have a: "\<And>b ctx query ts. dropWarnings (client1 b ctx query ts) = dropWarnings (client2 b ctx query ts)"
    using agree by blast
  have loop: "snd (?run client1) = snd (?run client2)
      \<and> backend (fst (?run client1)) = backend (fst (?run client2))"
    by (rule pairLoop_warnings [OF a]) simp
  have t: "top layout (cfg\<lparr>PrometheusClient := client\<rparr>) w =
      (case ?run client of (w', Inl e) \<Rightarrow> (w', Inl e) | (w', Inr (hash, tbl)) \<Rightarrow> (w', Inr tbl))"
    for client
    by (rule top_unfold) (simp add: sel)
  obtain u1 r1 where r1: "?run client1 = (u1, r1)" by (metis surj_pair)
  obtain u2 r2 where r2: "?run client2 = (u2, r2)" by (metis surj_pair)
  from loop have "r1 = r2" "backend u1 = backend u2" by (simp_all add: r1 r2)
  then show ?thesis
    unfolding t r1 r2 by (cases r2) (auto split: prod.splits)
qed

theorem warnings_do_not_matter_witness:
  "snd (top exampleLayout (exampleConfig ''i'' exampleClient) exampleWorld)
     = snd (top exampleLayout (exampleConfig ''i'' warningClient) exampleWorld)"
proof -
  have agree: "\<forall>b ctx query ts. dropWarnings (exampleClient b ctx query ts) = dropWarnings (warningClient b ctx query ts)"
    by (simp add: dropWarnings_def exampleClient_def warningClient_def)
  have c: "(exampleConfig ''i'' exampleClient)\<lparr>PrometheusClient := exampleClient\<rparr> = exampleConfig ''i'' exampleClient"
    "(exampleConfig ''i'' exampleClient)\<lparr>PrometheusClient := warningClient\<rparr> = exampleConfig ''i'' warningClient"
    by (simp_all add: exampleConfig_def)
  from warnings_do_not_matter [OF agree, of exampleLayout "exampleConfig ''i'' exampleClient" exampleWorld]
  show ?thesis unfolding c by simp
qed

end
